theory Spec2Isabelle
  imports Main "HOL-Library.Word"
begin

section \<open>The gcoap forward proxy (sys/net/application\_layer/gcoap/forward\_proxy.c)\<close>

text \<open>
  The proxy's own functions are embedded one by one, under their C names. Everything the
  file calls but does not define (the CoAP codec, the URI parser, the network interface
  registry, the cache module, the timer, the engine's memo table and send primitive) is a
  field of the record \<open>env\<close> or a field of the packet it is asked about, so every theorem
  holds for each behaviour of those collaborators.
\<close>

type_synonym bytes = "8 word list"

subsection \<open>Constants\<close>

text \<open>
  Modelled from the spec: the option numbers, method and response codes that the spec
  names, with the values RFC 7252 assigns and net/nanocoap.h (not part of the translated
  file) defines; the error numbers are those of errno.h.
\<close>

definition COAP_OPT_ETAG :: nat where "COAP_OPT_ETAG = 4"
definition COAP_OPT_URI_PATH :: nat where "COAP_OPT_URI_PATH = 11"
definition COAP_OPT_MAX_AGE :: nat where "COAP_OPT_MAX_AGE = 14"
definition COAP_OPT_URI_QUERY :: nat where "COAP_OPT_URI_QUERY = 15"
definition COAP_OPT_PROXY_URI :: nat where "COAP_OPT_PROXY_URI = 35"

definition COAP_METHOD_GET :: "8 word" where "COAP_METHOD_GET = 1"
definition COAP_METHOD_FETCH :: "8 word" where "COAP_METHOD_FETCH = 5"
definition COAP_CODE_VALID :: "8 word" where "COAP_CODE_VALID = 67"
definition COAP_CODE_BAD_OPTION :: "8 word" where "COAP_CODE_BAD_OPTION = 130"
definition COAP_CODE_INTERNAL_SERVER_ERROR :: "8 word" where
  "COAP_CODE_INTERNAL_SERVER_ERROR = 160"
definition COAP_CODE_PROXYING_NOT_SUPPORTED :: "8 word" where
  "COAP_CODE_PROXYING_NOT_SUPPORTED = 165"

definition EPERM :: int where "EPERM = 1"
definition ENOENT :: int where "ENOENT = 2"
definition ENOMEM :: int where "ENOMEM = 12"
definition EINVAL :: int where "EINVAL = 22"

definition AF_INET6 :: nat where "AF_INET6 = 10"
definition SOCK_ADDR_ANY_NETIF :: "16 word" where "SOCK_ADDR_ANY_NETIF = 0"
definition COAP_PORT :: "16 word" where "COAP_PORT = 5683"
definition GCOAP_SEND_LIMIT_NON :: int where "GCOAP_SEND_LIMIT_NON = -1"

subsection \<open>Data\<close>

text \<open>
  What \<open>coap_opt_get_next\<close> hands to one round of the copy loop: a negative length
  (\<open>Opt_err\<close>) or an option number with its value.
\<close>

datatype opt_read = Opt_err | Opt nat bytes

text \<open>The two failures of the codec's option getters, returned as \<open>-ENOENT\<close> and \<open>-EINVAL\<close>.\<close>

datatype opt_error = Err_ENOENT | Err_EINVAL

fun errno_of :: "opt_error \<Rightarrow> int" where
  "errno_of Err_ENOENT = ENOENT"
| "errno_of Err_EINVAL = EINVAL"

type_synonym coap_opt = "nat \<times> bytes"

text \<open>
  \<open>coap_pkt_t\<close>: the header fields, the options as the iterator yields them
  (\<open>options_len\<close> is the length of \<open>opt_reads\<close>), the payload, and the answers of the
  codec's read-only queries on this packet: \<open>payload_pos\<close> is
  \<open>pdu->payload - (uint8_t *)pdu->hdr\<close>, \<open>total_hdr_len\<close> is
  \<open>coap_get_total_hdr_len\<close>, \<open>proxy_uri\<close> is \<open>coap_get_proxy_uri\<close>, \<open>etag_opt\<close> is
  \<open>coap_opt_get_opaque\<close> for ETag and \<open>max_age_opt\<close> is \<open>coap_opt_get_uint\<close> for
  Max-Age (\<open>None\<close> when it leaves its target untouched).
\<close>

record coap_pkt =
  ver_t_tkl :: "8 word"
  code :: "8 word"
  msg_id :: "16 word"
  token :: bytes
  opt_reads :: "opt_read list"
  payload :: bytes
  payload_pos :: nat
  total_hdr_len :: "32 word"
  proxy_uri :: "opt_error + string"
  etag_opt :: "opt_error + bytes"
  max_age_opt :: "32 word option"

record sock_udp_ep =
  family :: nat
  addr :: bytes
  netif :: "16 word"
  port :: "16 word"

record client_ep =
  in_use :: bool
  validating :: bool
  ep :: sock_udp_ep
  cache_key :: bytes

record nanocoap_cache_entry =
  request_method :: nat
  response_pkt :: coap_pkt
  response_buf :: bytes
  response_len :: "32 word"
  max_age :: "32 word"

record uri_parser_result =
  scheme :: string
  ipv6addr :: "string option"
  zoneid :: "string option"
  port_str :: string
  path :: string
  query :: "string option"

text \<open>The request built in \<open>proxy_req_buf\<close>: header fields, options in emission order, payload.\<close>

record out_pkt =
  o_ver_t_tkl :: "8 word"
  o_code :: "8 word"
  o_id :: "16 word"
  o_token :: bytes
  o_opts :: "coap_opt list"
  o_payload :: bytes

type_synonym cache = "bytes \<Rightarrow> nanocoap_cache_entry option"

text \<open>
  The collaborators. \<open>opt_fits\<close> says whether the codec has room to append an option to
  the options written so far (\<open>coap_opt_add_opaque\<close> fails otherwise), \<open>opt_segments\<close> is
  the split of a path or query at a separator that \<open>coap_opt_add_chars\<close> performs,
  \<open>find_req_memo\<close> says whether \<open>gcoap_forward_proxy_find_req_memo\<close> found a memo,
  \<open>gcoap_resp_init\<close> gives the packet as it is after the response header with the given
  code has been written over it (the buffer and its size, which each call site fixes, are
  left out), \<open>nanocoap_cache_process\<close> gives the cache after the cache module has ingested
  a response, \<open>coap_opt_finish\<close> gives the length the codec returns for the options written
  and the payload-marker flag.
\<close>

record env =
  cache_enabled :: bool
  cache_key_length :: nat
  ztimer_now :: "32 word"
  nanocoap_cache_key_generate :: "coap_pkt \<Rightarrow> bytes"
  nanocoap_cache_process :: "cache \<Rightarrow> bytes \<Rightarrow> nat \<Rightarrow> coap_pkt \<Rightarrow> nat \<Rightarrow> cache"
  gcoap_resp_init :: "coap_pkt \<Rightarrow> 8 word \<Rightarrow> coap_pkt"
  uri_parser_process :: "string \<Rightarrow> int \<times> uri_parser_result"
  uri_parser_is_absolute :: "string \<Rightarrow> bool"
  gnrc_netif_get_by_pid :: "int \<Rightarrow> bool"
  gnrc_netif_numof :: nat
  gnrc_netif_iter_pid :: int
  ipv6_addr_from_buf :: "string \<Rightarrow> bytes option"
  ipv6_addr_is_link_local :: "bytes \<Rightarrow> bool"
  atoi :: "string \<Rightarrow> int"
  find_req_memo :: "coap_pkt \<Rightarrow> sock_udp_ep \<Rightarrow> bool"
  opt_fits :: "coap_opt list \<Rightarrow> coap_opt \<Rightarrow> bool"
  opt_segments :: "char \<Rightarrow> string \<Rightarrow> bytes list"
  coap_opt_finish :: "coap_opt list \<Rightarrow> bool \<Rightarrow> int"
  gcoap_req_send :: "out_pkt \<Rightarrow> int \<Rightarrow> sock_udp_ep \<Rightarrow> int"

subsection \<open>The option rewriter\<close>

text \<open>
  Modelled from the spec: \<open>coap_opt_add_opaque\<close> and \<open>coap_opt_add_chars\<close> belong to
  the codec. The first appends one option, or changes nothing and reports failure when
  the codec has no room; the second appends one option per segment of the string and
  stops with a negative result at the first one that fails (an empty string adds nothing).
\<close>

definition coap_opt_add_opaque ::
  "env \<Rightarrow> coap_opt list \<Rightarrow> nat \<Rightarrow> bytes \<Rightarrow> bool \<times> coap_opt list" where
  "coap_opt_add_opaque E pkt n v =
     (if opt_fits E pkt (n, v) then (True, pkt @ [(n, v)]) else (False, pkt))"

fun add_segments :: "env \<Rightarrow> coap_opt list \<Rightarrow> nat \<Rightarrow> bytes list \<Rightarrow> coap_opt list option" where
  "add_segments E pkt n [] = Some pkt"
| "add_segments E pkt n (s # ss) =
     (case coap_opt_add_opaque E pkt n s of
        (True, pkt') \<Rightarrow> add_segments E pkt' n ss
      | (False, _) \<Rightarrow> None)"

definition coap_opt_add_chars ::
  "env \<Rightarrow> coap_opt list \<Rightarrow> nat \<Rightarrow> string \<Rightarrow> char \<Rightarrow> coap_opt list option" where
  "coap_opt_add_chars E pkt n chars sep =
     (if chars = [] then Some pkt else add_segments E pkt n (opt_segments E sep chars))"

text \<open>\<open>_gcoap_forward_proxy_add_uri_path\<close>: \<open>None\<close> is the return value \<open>-EINVAL\<close>.\<close>

definition gcoap_forward_proxy_add_uri_path ::
  "env \<Rightarrow> coap_opt list \<Rightarrow> uri_parser_result \<Rightarrow> coap_opt list option" where
  "gcoap_forward_proxy_add_uri_path E pkt urip =
     (case coap_opt_add_chars E pkt COAP_OPT_URI_PATH (path urip) CHR ''/'' of
        None \<Rightarrow> None
      | Some pkt1 \<Rightarrow>
          (case query urip of
             None \<Rightarrow> Some pkt1
           | Some q \<Rightarrow> coap_opt_add_chars E pkt1 COAP_OPT_URI_QUERY q CHR ''&''))"

text \<open>
  The variables of the copy loop: the options written to \<open>pkt\<close> so far, the slot's
  \<open>validating\<close> flag, and the two latches.
\<close>

record rw_state =
  out :: "coap_opt list"
  cep_validating :: bool
  uri_path_added :: bool
  etag_added :: bool

text \<open>The ETag block at the head of the loop body (lines 370 to 381).\<close>

definition add_cache_etag ::
  "env \<Rightarrow> nanocoap_cache_entry option \<Rightarrow> nat \<Rightarrow> rw_state \<Rightarrow> rw_state" where
  "add_cache_etag E ce n s =
     (if \<not> etag_added s \<and> COAP_OPT_ETAG \<le> n then
        (case ce of
           Some c \<Rightarrow>
             (if cache_enabled E then
                (case etag_opt (response_pkt c) of
                   Inr etag \<Rightarrow>
                     (if 0 < length etag
                      then s\<lparr>out := snd (coap_opt_add_opaque E (out s) COAP_OPT_ETAG etag),
                             etag_added := True\<rparr>
                      else s\<lparr>etag_added := True\<rparr>)
                 | Inl _ \<Rightarrow> s\<lparr>etag_added := True\<rparr>)
              else s)
         | None \<Rightarrow> s)
      else s)"

text \<open>
  One round of the loop for one result of \<open>coap_opt_get_next\<close>. \<open>Inl\<close> is the early
  \<open>return -EINVAL\<close>; it carries the variables as they are at that point.
\<close>

definition copy_step ::
  "env \<Rightarrow> uri_parser_result \<Rightarrow> nanocoap_cache_entry option \<Rightarrow> opt_read \<Rightarrow> rw_state
     \<Rightarrow> rw_state + rw_state" where
  "copy_step E urip ce r s =
     (case r of
        Opt_err \<Rightarrow> Inr s
      | Opt n v \<Rightarrow>
          (let s1 = add_cache_etag E ce n s in
           if n = COAP_OPT_ETAG then Inr (s1\<lparr>cep_validating := True\<rparr>)
           else
             (case (if \<not> uri_path_added s1 \<and> COAP_OPT_URI_PATH < n
                    then (case gcoap_forward_proxy_add_uri_path E (out s1) urip of
                            None \<Rightarrow> None
                          | Some p \<Rightarrow> Some (s1\<lparr>out := p, uri_path_added := True\<rparr>))
                    else Some s1) of
                None \<Rightarrow> Inl s1
              | Some s2 \<Rightarrow>
                  (if n = COAP_OPT_PROXY_URI then Inr s2
                   else Inr (s2\<lparr>out := snd (coap_opt_add_opaque E (out s2) n v)\<rparr>)))))"

fun copy_loop ::
  "env \<Rightarrow> uri_parser_result \<Rightarrow> nanocoap_cache_entry option \<Rightarrow> opt_read list \<Rightarrow> rw_state
     \<Rightarrow> rw_state + rw_state" where
  "copy_loop E urip ce [] s = Inr s"
| "copy_loop E urip ce (r # rs) s =
     (case copy_step E urip ce r s of
        Inl s' \<Rightarrow> Inl s'
      | Inr s' \<Rightarrow> copy_loop E urip ce rs s')"

text \<open>
  \<open>_gcoap_forward_proxy_copy_options\<close>: the returned length, the outbound options and
  payload, and the slot's \<open>validating\<close> flag afterwards. The length is what
  \<open>coap_opt_finish\<close> returns (asked for a payload marker iff the client's payload is not
  empty) plus the payload length.
\<close>

definition gcoap_forward_proxy_copy_options ::
  "env \<Rightarrow> coap_pkt \<Rightarrow> bool \<Rightarrow> uri_parser_result \<Rightarrow> nanocoap_cache_entry option
     \<Rightarrow> int \<times> coap_opt list \<times> bytes \<times> bool" where
  "gcoap_forward_proxy_copy_options E client_pkt v urip ce =
     (case copy_loop E urip ce (opt_reads client_pkt)
             \<lparr>out = [], cep_validating = v, uri_path_added = False, etag_added = False\<rparr> of
        Inl s \<Rightarrow> (- EINVAL, out s, [], cep_validating s)
      | Inr s \<Rightarrow>
          (coap_opt_finish E (out s) (payload client_pkt \<noteq> []) + int (length (payload client_pkt)),
           out s, payload client_pkt, cep_validating s))"

subsection \<open>The client endpoint table\<close>

text \<open>
  \<open>_client_eps\<close> is the list of slots, a pointer into it is an index. The cache is the
  function \<open>nanocoap_cache_key_lookup\<close> computes. The trace lists, in order, the calls of
  the engine's send primitive, of \<open>gcoap_forward_proxy_dispatch\<close> and of
  \<open>nanocoap_cache_process\<close>.
\<close>

datatype built = Resp_valid coap_pkt bytes | Resp_cached coap_pkt bytes

datatype wire = As_is coap_pkt | Built built

datatype event =
    Req_send out_pkt int sock_udp_ep nat
  | Dispatch wire nat sock_udp_ep
  | Cache_process bytes nat coap_pkt nat

record pstate =
  client_eps :: "client_ep list"
  cache_tbl :: cache
  trace :: "event list"

text \<open>
  \<open>_allocate_client_ep\<close>: the first slot that is not in use is claimed; the result is its
  index and the table after the claim, or \<open>None\<close> for the null pointer.
\<close>

fun allocate_client_ep :: "client_ep list \<Rightarrow> sock_udp_ep \<Rightarrow> (nat \<times> client_ep list) option" where
  "allocate_client_ep [] e = None"
| "allocate_client_ep (c # cs) e =
     (if \<not> in_use c then Some (0, c\<lparr>in_use := True, validating := False, ep := e\<rparr> # cs)
      else (case allocate_client_ep cs e of
              None \<Rightarrow> None
            | Some (i, cs') \<Rightarrow> Some (Suc i, c # cs')))"

text \<open>\<open>_free_client_ep\<close>: \<open>memset\<close> to zero; the arrays keep their sizes.\<close>

definition zeroed :: "client_ep \<Rightarrow> client_ep" where
  "zeroed c =
     \<lparr>in_use = False, validating = False,
      ep = \<lparr>family = 0, addr = replicate (length (addr (ep c))) 0, netif = 0, port = 0\<rparr>,
      cache_key = replicate (length (cache_key c)) 0\<rparr>"

definition free_client_ep :: "pstate \<Rightarrow> nat \<Rightarrow> pstate" where
  "free_client_ep st i = st\<lparr>client_eps := (client_eps st)[i := zeroed (client_eps st ! i)]\<rparr>"

subsection \<open>Serving from the cache\<close>

definition coap_get_code :: "coap_pkt \<Rightarrow> nat" where
  "coap_get_code p = unat (code p)"

text \<open>
  \<open>_cache_build_response\<close>: the returned \<open>int\<close>, what is left in the buffer, and the
  packet structure afterwards. The lengths are computed in \<open>unsigned\<close> and returned as
  \<open>int\<close>.
\<close>

definition cache_build_response ::
  "env \<Rightarrow> nanocoap_cache_entry \<Rightarrow> coap_pkt \<Rightarrow> int \<times> built \<times> coap_pkt" where
  "cache_build_response E ce pdu =
     (let validated =
        (if code pdu = COAP_METHOD_GET \<or> code pdu = COAP_METHOD_FETCH then
           (case etag_opt pdu of
              Inr req_etag \<Rightarrow>
                (if 0 < length req_etag then
                   (case etag_opt (response_pkt ce) of
                      Inr cache_etag \<Rightarrow>
                        (if length cache_etag = length req_etag \<and> req_etag = cache_etag
                         then Some req_etag else None)
                    | Inl _ \<Rightarrow> None)
                 else None)
            | Inl _ \<Rightarrow> None)
         else None)
      in case validated of
           Some req_etag \<Rightarrow>
             (let pdu' = gcoap_resp_init E pdu COAP_CODE_VALID
              in (sint (total_hdr_len pdu'), Resp_valid pdu' req_etag, pdu'))
         | None \<Rightarrow>
             (let pdu' = gcoap_resp_init E pdu (code (response_pkt ce));
                  header_len_req = total_hdr_len pdu';
                  header_len_cached = total_hdr_len (response_pkt ce);
                  opt_payload_len = response_len ce - header_len_cached
              in (sint (header_len_req + opt_payload_len),
                  Resp_cached pdu'
                    (take (unat opt_payload_len) (drop (unat header_len_cached) (response_buf ce))),
                  pdu')))"

text \<open>
  \<open>_cache_lookup_and_process\<close> for the slot at index \<open>i\<close>: the returned \<open>int\<close>, the
  buffer if a response was built, the packet afterwards, the entry found, and the state.
\<close>

definition cache_lookup_and_process ::
  "env \<Rightarrow> pstate \<Rightarrow> coap_pkt \<Rightarrow> nat
     \<Rightarrow> int \<times> built option \<times> coap_pkt \<times> nanocoap_cache_entry option \<times> pstate" where
  "cache_lookup_and_process E st pdu i =
     (let cache_key' = nanocoap_cache_key_generate E pdu;
          now = ztimer_now E;
          ce = cache_tbl st cache_key';
          miss = (0, None, pdu, ce,
                  st\<lparr>client_eps := (client_eps st)
                        [i := (client_eps st ! i)\<lparr>cache_key := take (cache_key_length E) cache_key'\<rparr>]\<rparr>)
      in case ce of
           Some c \<Rightarrow>
             (if request_method c = coap_get_code pdu \<and> now < max_age c
              then (case cache_build_response E c pdu of
                      (n, b, pdu') \<Rightarrow> (n, Some b, pdu', ce, st))
              else miss)
         | None \<Rightarrow> miss)"

subsection \<open>Matching and resolving\<close>



text \<open>
  \<open>_parse_endpoint\<close>: \<open>None\<close> is \<open>false\<close>. The interface id and the port are stored in
  16-bit fields. (The C code copies the port string into an 8-byte scratch array without a
  length check; the model follows it only for port strings that fit.)
\<close>

definition parse_endpoint :: "env \<Rightarrow> uri_parser_result \<Rightarrow> sock_udp_ep option" where
  "parse_endpoint E urip =
     (case ipv6addr urip of
        None \<Rightarrow> None
      | Some a \<Rightarrow>
          (case (case zoneid urip of
                   Some z \<Rightarrow>
                     (if 7 < length z then None
                      else (let pid = atoi E z
                            in if \<not> gnrc_netif_get_by_pid E pid then None
                               else Some (word_of_int pid :: 16 word)))
                 | None \<Rightarrow>
                     (if gnrc_netif_numof E = 1 then Some (word_of_int (gnrc_netif_iter_pid E))
                      else Some SOCK_ADDR_ANY_NETIF)) of
             None \<Rightarrow> None
           | Some nif \<Rightarrow>
               (case ipv6_addr_from_buf E a of
                  None \<Rightarrow> None
                | Some ad \<Rightarrow>
                    (if nif = SOCK_ADDR_ANY_NETIF \<and> ipv6_addr_is_link_local E ad then None
                     else if port_str urip \<noteq> [] then
                       (let p = (word_of_int (atoi E (port_str urip)) :: 16 word)
                        in if p = 0 then None
                           else Some \<lparr>family = AF_INET6, addr = ad, netif = nif, port = p\<rparr>)
                     else Some \<lparr>family = AF_INET6, addr = ad, netif = nif, port = COAP_PORT\<rparr>))))"

text \<open>
  \<open>strncmp\<close> of the C library: at most \<open>n\<close> characters are compared, a string that has
  ended reads as the terminating NUL, and the comparison stops at a NUL in both.
\<close>

fun strncmp :: "string \<Rightarrow> string \<Rightarrow> nat \<Rightarrow> int" where
  "strncmp s1 s2 0 = 0"
| "strncmp s1 s2 (Suc n) =
     (let c1 = (case s1 of [] \<Rightarrow> 0 | x # _ \<Rightarrow> (of_char x :: int));
          c2 = (case s2 of [] \<Rightarrow> 0 | y # _ \<Rightarrow> (of_char y :: int))
      in if c1 \<noteq> c2 then c1 - c2
         else if c1 = 0 then 0
         else strncmp (tl s1) (tl s2) n)"

subsection \<open>Forwarding\<close>

text \<open>
  \<open>_gcoap_forward_proxy_via_coap\<close> for the slot at index \<open>i\<close>. The outbound packet takes
  version, type, token length, code, message id and token from the client's packet.
\<close>

definition gcoap_forward_proxy_via_coap ::
  "env \<Rightarrow> pstate \<Rightarrow> coap_pkt \<Rightarrow> nat \<Rightarrow> uri_parser_result \<Rightarrow> nanocoap_cache_entry option
     \<Rightarrow> int \<times> pstate" where
  "gcoap_forward_proxy_via_coap E st client_pkt i urip ce =
     (case parse_endpoint E urip of
        None \<Rightarrow> (- EINVAL, st)
      | Some origin_server_ep \<Rightarrow>
          (if find_req_memo E client_pkt origin_server_ep then (0, free_client_ep st i)
           else
             (case gcoap_forward_proxy_copy_options E client_pkt
                     (validating (client_eps st ! i)) urip ce of
                (len, opts, pl, v) \<Rightarrow>
                  (let st1 = st\<lparr>client_eps := (client_eps st)
                                   [i := (client_eps st ! i)\<lparr>validating := v\<rparr>]\<rparr>
                   in if len = - EINVAL then (- EINVAL, st1)
                      else
                        (let pkt = \<lparr>o_ver_t_tkl = ver_t_tkl client_pkt, o_code = code client_pkt,
                                    o_id = msg_id client_pkt, o_token = token client_pkt,
                                    o_opts = opts, o_payload = pl\<rparr>
                         in (gcoap_req_send E pkt len origin_server_ep,
                             st1\<lparr>trace := trace st1 @ [Req_send pkt len origin_server_ep i]\<rparr>))))))"

text \<open>
  \<open>gcoap_forward_proxy_request_process\<close>: the returned \<open>int\<close>, the response left in the
  client's buffer by the cache (if any), and the state.
\<close>

definition gcoap_forward_proxy_request_process ::
  "env \<Rightarrow> pstate \<Rightarrow> coap_pkt \<Rightarrow> sock_udp_ep \<Rightarrow> int \<times> built option \<times> pstate" where
  "gcoap_forward_proxy_request_process E st pkt0 client =
     (case allocate_client_ep (client_eps st) client of
        None \<Rightarrow> (- ENOMEM, None, st)
      | Some (i, eps) \<Rightarrow>
          (case (if cache_enabled E
                 then cache_lookup_and_process E (st\<lparr>client_eps := eps\<rparr>) pkt0 i
                 else (0, None, pkt0, None, st\<lparr>client_eps := eps\<rparr>)) of
             (pdu_len, b, pkt, ce, st1) \<Rightarrow>
               (if cache_enabled E \<and> 0 < pdu_len then (pdu_len, b, free_client_ep st1 i)
                else
                  (case proxy_uri pkt of
                     Inl e \<Rightarrow> (- errno_of e, b, free_client_ep st1 i)
                   | Inr uri \<Rightarrow>
                       (case uri_parser_process E uri of
                          (ures, urip) \<Rightarrow>
                            (if ures \<noteq> 0 \<or> \<not> uri_parser_is_absolute E uri
                             then (- EINVAL, b, free_client_ep st1 i)
                             else if strncmp ''coap'' (scheme urip) (length (scheme urip)) = 0
                             then
                               (case gcoap_forward_proxy_via_coap E st1 pkt i urip ce of
                                  (res, st2) \<Rightarrow>
                                    (if res < 0 then (- EINVAL, b, free_client_ep st2 i)
                                     else (0, b, st2)))
                             else (- EPERM, b, free_client_ep st1 i)))))))"

text \<open>
  \<open>_forward_proxy_handler\<close>: either the result of \<open>gcoap_response\<close> with an error code
  (\<open>Response\<close>), or the length handed back unchanged.
\<close>

datatype reply = Response "8 word" | Pdu_len int

definition forward_proxy_handler ::
  "env \<Rightarrow> pstate \<Rightarrow> coap_pkt \<Rightarrow> sock_udp_ep \<Rightarrow> reply \<times> built option \<times> pstate" where
  "forward_proxy_handler E st pdu remote =
     (case gcoap_forward_proxy_request_process E st pdu remote of
        (pdu_len, b, st') \<Rightarrow>
          (if pdu_len = - ENOMEM then (Response COAP_CODE_INTERNAL_SERVER_ERROR, b, st')
           else if pdu_len = - EINVAL then (Response COAP_CODE_BAD_OPTION, b, st')
           else if pdu_len = - EPERM then (Response COAP_CODE_PROXYING_NOT_SUPPORTED, b, st')
           else (Pdu_len pdu_len, b, st')))"

subsection \<open>The response handler\<close>

datatype memo_state =
    GCOAP_MEMO_UNUSED | GCOAP_MEMO_RETRANSMIT | GCOAP_MEMO_WAIT | GCOAP_MEMO_RESP
  | GCOAP_MEMO_TIMEOUT | GCOAP_MEMO_ERR | GCOAP_MEMO_RESP_TRUNC

text \<open>
  \<open>gcoap_request_memo_t\<close>, as far as the handler reads it: the state, the send limit, the
  code of the request header kept in \<open>msg.hdr_buf\<close> and in \<open>msg.data.pdu_buf\<close>, and the
  context (the slot).
\<close>

record gcoap_request_memo =
  memo_state :: memo_state
  send_limit :: int
  hdr_buf_code :: "8 word"
  pdu_buf_code :: "8 word"
  memo_context :: nat

definition dispatch :: "wire \<Rightarrow> nat \<Rightarrow> sock_udp_ep \<Rightarrow> pstate \<Rightarrow> pstate" where
  "dispatch w len e st = st\<lparr>trace := trace st @ [Dispatch w len e]\<rparr>"

text \<open>The revalidation branch (lines 287 to 314), for the slot \<open>cep\<close>.\<close>

definition revalidate :: "env \<Rightarrow> client_ep \<Rightarrow> coap_pkt \<Rightarrow> pstate \<Rightarrow> pstate" where
  "revalidate E cep pdu st =
     (case cache_tbl st (cache_key cep) of
        Some ce0 \<Rightarrow>
          (let max_age' = (case max_age_opt pdu of Some m \<Rightarrow> m | None \<Rightarrow> 60);
               ce = ce0\<lparr>max_age := ztimer_now E + max_age'\<rparr>;
               header_len_req = total_hdr_len pdu;
               header_len_cached = total_hdr_len (response_pkt ce);
               pdu' = gcoap_resp_init E pdu (code (response_pkt ce));
               opt_payload_len = response_len ce - header_len_cached
           in dispatch
                (Built (Resp_cached pdu'
                   (take (unat opt_payload_len) (drop (unat header_len_cached) (response_buf ce)))))
                (unat (header_len_req + opt_payload_len)) (ep cep)
                (st\<lparr>cache_tbl := (cache_tbl st)(cache_key cep \<mapsto> ce)\<rparr>))
      | None \<Rightarrow> st)"

text \<open>The \<open>else\<close> branch (lines 315 to 327): the response goes to the cache module.\<close>

definition cache_ingest :: "env \<Rightarrow> gcoap_request_memo \<Rightarrow> client_ep \<Rightarrow> coap_pkt \<Rightarrow> pstate \<Rightarrow> pstate" where
  "cache_ingest E memo cep pdu st =
     (let req_code = (if send_limit memo = GCOAP_SEND_LIMIT_NON then hdr_buf_code memo
                      else pdu_buf_code memo);
          pdu_len = length (payload pdu) + payload_pos pdu
      in st\<lparr>cache_tbl :=
              nanocoap_cache_process E (cache_tbl st) (cache_key cep) (unat req_code) pdu pdu_len,
            trace := trace st @ [Cache_process (cache_key cep) (unat req_code) pdu pdu_len]\<rparr>)"

definition forward_resp_handler :: "env \<Rightarrow> pstate \<Rightarrow> gcoap_request_memo \<Rightarrow> coap_pkt \<Rightarrow> pstate" where
  "forward_resp_handler E st memo pdu =
     (let i = memo_context memo;
          cep = client_eps st ! i;
          st' =
            (if memo_state memo = GCOAP_MEMO_RESP then
               (let st1 =
                  (if \<not> cache_enabled E \<or> code pdu \<noteq> COAP_CODE_VALID \<or> validating cep
                   then dispatch (As_is pdu) (payload_pos pdu + length (payload pdu)) (ep cep) st
                   else st)
                in if cache_enabled E then
                     (if code pdu = COAP_CODE_VALID \<and> \<not> validating cep
                      then revalidate E cep pdu st1
                      else cache_ingest E memo cep pdu st1)
                   else st1)
             else st)
      in free_client_ep st' i)"

subsection \<open>Notions used to state the properties\<close>

text \<open>
  A fresh hit is the condition of line 122 to 124: the lookup finds an entry whose request
  method is the inbound code and whose deadline lies after the current time.
\<close>

definition fresh_hit :: "env \<Rightarrow> pstate \<Rightarrow> coap_pkt \<Rightarrow> bool" where
  "fresh_hit E st pdu =
     (case cache_tbl st (nanocoap_cache_key_generate E pdu) of
        Some c \<Rightarrow> request_method c = coap_get_code pdu \<and> ztimer_now E < max_age c
      | None \<Rightarrow> False)"

text \<open>
  The state in which forwarding starts once slot \<open>i\<close> is claimed (the table is then \<open>eps\<close>)
  and the cache gave no response: with the cache module the request's key has been copied
  into the slot.
\<close>

definition after_miss :: "env \<Rightarrow> pstate \<Rightarrow> coap_pkt \<Rightarrow> nat \<Rightarrow> client_ep list \<Rightarrow> pstate" where
  "after_miss E st pdu i eps =
     (if cache_enabled E
      then st\<lparr>client_eps := eps[i := (eps ! i)\<lparr>cache_key :=
                 take (cache_key_length E) (nanocoap_cache_key_generate E pdu)\<rparr>]\<rparr>
      else st\<lparr>client_eps := eps\<rparr>)"

fun is_req_send :: "event \<Rightarrow> bool" where
  "is_req_send (Req_send _ _ _ _) = True"
| "is_req_send _ = False"

fun is_cache_process :: "event \<Rightarrow> bool" where
  "is_cache_process (Cache_process _ _ _ _) = True"
| "is_cache_process _ = False"

fun is_dispatch :: "event \<Rightarrow> bool" where
  "is_dispatch (Dispatch _ _ _) = True"
| "is_dispatch _ = False"

subsection \<open>A concrete proxy\<close>

text \<open>
  Collaborators and inputs at which the theorems are exercised: a separator split that
  drops empty segments, a decimal \<open>atoi\<close>, a URI parser that knows the sample URIs, one
  network interface with id 1, a cache keyed by method and URI length, a codec with room
  for sixteen options, and an engine whose send primitive returns the length it was given.
\<close>

fun split_chars :: "char \<Rightarrow> string \<Rightarrow> string \<Rightarrow> string list" where
  "split_chars sep [] acc = (if acc = [] then [] else [acc])"
| "split_chars sep (c # cs) acc =
     (if c = sep then (if acc = [] then split_chars sep cs [] else acc # split_chars sep cs [])
      else split_chars sep cs (acc @ [c]))"

definition ex_segments :: "char \<Rightarrow> string \<Rightarrow> bytes list" where
  "ex_segments sep s = map (map of_char) (split_chars sep s [])"

fun ex_atoi :: "string \<Rightarrow> int \<Rightarrow> int" where
  "ex_atoi [] a = a"
| "ex_atoi (c # cs) a =
     (if 48 \<le> (of_char c :: nat) \<and> (of_char c :: nat) \<le> 57
      then ex_atoi cs (10 * a + (of_char c - 48))
      else a)"

definition ex_urip :: "string \<Rightarrow> string option \<Rightarrow> uri_parser_result" where
  "ex_urip sch q =
     \<lparr>scheme = sch, ipv6addr = Some ''fe80::1'', zoneid = Some ''1'', port_str = [],
      path = ''/a'', query = q\<rparr>"

definition ex_uri_parser_process :: "string \<Rightarrow> int \<times> uri_parser_result" where
  "ex_uri_parser_process u =
     (if u = ''coap://[fe80::1%1]/a'' then (0, ex_urip ''coap'' None)
      else if u = ''coap://[fe80::1%1]/a?b=c'' then (0, ex_urip ''coap'' (Some ''b=c''))
      else if u = ''co://[fe80::1%1]/a'' then (0, ex_urip ''co'' None)
      else if u = ''http://[fe80::1%1]/a'' then (0, ex_urip ''http'' None)
      else if u = ''/a'' then
        (0, \<lparr>scheme = [], ipv6addr = None, zoneid = None, port_str = [], path = ''/a'',
             query = None\<rparr>)
      else (- 1, \<lparr>scheme = [], ipv6addr = None, zoneid = None, port_str = [], path = [],
                  query = None\<rparr>))"

definition ex_resp_init :: "coap_pkt \<Rightarrow> 8 word \<Rightarrow> coap_pkt" where
  "ex_resp_init p c =
     p\<lparr>code := c, opt_reads := [], payload := [], payload_pos := unat (total_hdr_len p),
       proxy_uri := Inl Err_ENOENT, etag_opt := Inl Err_ENOENT, max_age_opt := None\<rparr>"

definition ex_cache_key :: "coap_pkt \<Rightarrow> bytes" where
  "ex_cache_key p =
     [code p, (case proxy_uri p of Inr u \<Rightarrow> of_nat (length u) | Inl _ \<Rightarrow> 0), 0, 0, 0, 0, 0, 0]"

definition ex_cache_process :: "cache \<Rightarrow> bytes \<Rightarrow> nat \<Rightarrow> coap_pkt \<Rightarrow> nat \<Rightarrow> cache" where
  "ex_cache_process c k m p n =
     c(k \<mapsto> \<lparr>request_method = m, response_pkt = p, response_buf = [],
              response_len = of_nat n, max_age = 0\<rparr>)"

definition ex_env :: env where
  "ex_env =
     \<lparr>cache_enabled = True,
      cache_key_length = 8,
      ztimer_now = 1000,
      nanocoap_cache_key_generate = ex_cache_key,
      nanocoap_cache_process = ex_cache_process,
      gcoap_resp_init = ex_resp_init,
      uri_parser_process = ex_uri_parser_process,
      uri_parser_is_absolute = (\<lambda>u. u \<noteq> [] \<and> hd u \<noteq> CHR '':'' \<and> CHR '':'' \<in> set u),
      gnrc_netif_get_by_pid = (\<lambda>pid. pid = 1),
      gnrc_netif_numof = 1,
      gnrc_netif_iter_pid = 1,
      ipv6_addr_from_buf =
        (\<lambda>a. if a = ''fe80::1'' then Some [254, 128, 0, 0, 0, 0, 0, 0, 0, 0, 0, 0, 0, 0, 0, 1]
             else None),
      ipv6_addr_is_link_local = (\<lambda>a. take 2 a = [254, 128]),
      atoi = (\<lambda>s. ex_atoi s 0),
      find_req_memo = (\<lambda>p e. False),
      opt_fits = (\<lambda>pkt opt. length pkt < 16),
      opt_segments = ex_segments,
      coap_opt_finish = (\<lambda>opts marker. 5 + int (length opts) + (if marker then 1 else 0)),
      gcoap_req_send = (\<lambda>pkt len e. len)\<rparr>"

text \<open>
  A client request with one-byte token: the options before the Proxy-Uri option, the
  Proxy-Uri, and the payload. The getters' answers agree with the options.
\<close>

definition ex_request :: "8 word \<Rightarrow> opt_read list \<Rightarrow> string \<Rightarrow> bytes \<Rightarrow> coap_pkt" where
  "ex_request m pre uri pl =
     \<lparr>ver_t_tkl = 65, code = m, msg_id = 4660, token = [171],
      opt_reads = pre @ [Opt COAP_OPT_PROXY_URI (map of_char uri)],
      payload = pl, payload_pos = 0, total_hdr_len = 5,
      proxy_uri = Inr uri,
      etag_opt = (case [v. Opt n v \<leftarrow> pre, n = COAP_OPT_ETAG] of
                    [] \<Rightarrow> Inl Err_ENOENT | v # _ \<Rightarrow> Inr v),
      max_age_opt = None\<rparr>"

text \<open>A response of the origin: code, ETag and Max-Age as its options give them, payload.\<close>

definition ex_response :: "8 word \<Rightarrow> bytes option \<Rightarrow> 32 word option \<Rightarrow> bytes \<Rightarrow> coap_pkt" where
  "ex_response c et ma pl =
     \<lparr>ver_t_tkl = 97, code = c, msg_id = 4660, token = [171],
      opt_reads = (case et of Some v \<Rightarrow> [Opt COAP_OPT_ETAG v] | None \<Rightarrow> []) @
                  (case ma of Some m \<Rightarrow> [Opt COAP_OPT_MAX_AGE [ucast m]] | None \<Rightarrow> []),
      payload = pl, payload_pos = 9, total_hdr_len = 5,
      proxy_uri = Inl Err_ENOENT,
      etag_opt = (case et of Some v \<Rightarrow> Inr v | None \<Rightarrow> Inl Err_ENOENT),
      max_age_opt = ma\<rparr>"

definition ex_client :: sock_udp_ep where
  "ex_client = \<lparr>family = AF_INET6,
                addr = [254, 128, 0, 0, 0, 0, 0, 0, 0, 0, 0, 0, 0, 0, 0, 2],
                netif = 1, port = 40000\<rparr>"

definition ex_free_slot :: client_ep where
  "ex_free_slot =
     \<lparr>in_use = False, validating = False,
      ep = \<lparr>family = 0, addr = replicate 16 0, netif = 0, port = 0\<rparr>,
      cache_key = replicate 8 0\<rparr>"

definition ex_busy_slot :: "bool \<Rightarrow> bytes \<Rightarrow> client_ep" where
  "ex_busy_slot v k = \<lparr>in_use = True, validating = v, ep = ex_client, cache_key = k\<rparr>"

text \<open>The entry the cache holds for \<open>GET coap://[fe80::1%1]/a\<close>: a 2.05 with ETag and payload.\<close>

definition ex_entry :: "32 word \<Rightarrow> nanocoap_cache_entry" where
  "ex_entry deadline =
     \<lparr>request_method = 1,
      response_pkt = ex_response 69 (Some [225]) None [104, 105],
      response_buf = [97, 69, 18, 52, 171, 65, 225, 255, 104, 105],
      response_len = 10,
      max_age = deadline\<rparr>"

definition ex_cache :: "32 word \<Rightarrow> cache" where
  "ex_cache deadline = (\<lambda>k. if k = [1, 20, 0, 0, 0, 0, 0, 0] then Some (ex_entry deadline) else None)"

definition ex_state :: "client_ep list \<Rightarrow> cache \<Rightarrow> pstate" where
  "ex_state eps c = \<lparr>client_eps = eps, cache_tbl = c, trace = []\<rparr>"

text \<open>A memo of a confirmable request with method GET whose context is slot \<open>i\<close>.\<close>

definition ex_memo :: "memo_state \<Rightarrow> nat \<Rightarrow> gcoap_request_memo" where
  "ex_memo ms i =
     \<lparr>memo_state = ms, send_limit = 4, hdr_buf_code = 0, pdu_buf_code = 1, memo_context = i\<rparr>"

subsection \<open>Invariants of the copy loop\<close>

text \<open>
  What holds of the options written so far, whatever the inbound options are: none is a
  Proxy-Uri, every ETag among them carries the value of the cache entry's ETag, and there
  is at most one of them, none while the latch \<open>etag_added\<close> is unset.
\<close>

definition rw_inv :: "env \<Rightarrow> nanocoap_cache_entry option \<Rightarrow> rw_state \<Rightarrow> bool" where
  "rw_inv E ce s =
     (list_all (\<lambda>opt. fst opt \<noteq> COAP_OPT_PROXY_URI) (out s) \<and>
      list_all (\<lambda>opt. cache_enabled E \<and>
                  (case ce of Some c \<Rightarrow> etag_opt (response_pkt c) = Inr (snd opt) | None \<Rightarrow> False))
        (filter (\<lambda>opt. fst opt = COAP_OPT_ETAG) (out s)) \<and>
      length (filter (\<lambda>opt. fst opt = COAP_OPT_ETAG) (out s)) \<le> (if etag_added s then 1 else 0))"

text \<open>The option numbers the iterator yields, in order.\<close>

fun read_nums :: "opt_read list \<Rightarrow> nat list" where
  "read_nums [] = []"
| "read_nums (Opt_err # rs) = read_nums rs"
| "read_nums (Opt n v # rs) = n # read_nums rs"

text \<open>
  What holds of the options written so far while the inbound option numbers ascend and
  \<open>b\<close> is the last of them: the written numbers ascend and none is above \<open>b\<close>; with a
  cache entry at hand the ETag latch is unset only while \<open>b\<close> is below ETag; the Uri-Path
  latch is unset only while \<open>b\<close> is not above Uri-Path.
\<close>

definition ord_inv :: "env \<Rightarrow> nanocoap_cache_entry option \<Rightarrow> nat \<Rightarrow> rw_state \<Rightarrow> bool" where
  "ord_inv E ce b s =
     (sorted (map fst (out s)) \<and> list_all (\<lambda>opt. fst opt \<le> b) (out s) \<and>
      (etag_added s \<or> \<not> cache_enabled E \<or> ce = None \<or> b < COAP_OPT_ETAG) \<and>
      (uri_path_added s \<or> b \<le> COAP_OPT_URI_PATH))"

subsection \<open>The size of a response built from the cache\<close>

text \<open>
  Modelled from the spec: the number of bytes of the response that
  \<open>_cache_build_response\<close> leaves in the buffer. The total header length counts the
  header and the token, not the options (lines 98 to 105 place the cached options and
  payload directly behind it). The cached response is the header followed by the spliced
  tail. The 2.03 response is the header followed by the ETag option that line 88 adds; its
  encoding is the codec's (RFC 7252, section 3.1): one byte for the delta 4 and the
  length, one or two more bytes when the value has 13 or more bytes, then the value.
\<close>

definition etag_option_size :: "bytes \<Rightarrow> nat" where
  "etag_option_size v =
     1 + (if length v < 13 then 0 else if length v < 269 then 1 else 2) + length v"

fun built_size :: "built \<Rightarrow> nat" where
  "built_size (Resp_valid pdu e) = unat (total_hdr_len pdu) + etag_option_size e"
| "built_size (Resp_cached pdu tail) = unat (total_hdr_len pdu) + length tail"

section \<open>Properties\<close>

subsection \<open>The slot table\<close>

lemma allocate_Some:
  "allocate_client_ep eps e = Some (i, eps') \<Longrightarrow>
     i < length eps \<and> \<not> in_use (eps ! i) \<and> (\<forall>j<i. in_use (eps ! j)) \<and>
     eps' = eps[i := (eps ! i)\<lparr>in_use := True, validating := False, ep := e\<rparr>]"
proof (induction eps arbitrary: i eps')
  case Nil
  then show ?case by simp
next
  case (Cons c cs)
  show ?case
  proof (cases "in_use c")
    case False
    with Cons.prems show ?thesis by auto
  next
    case True
    with Cons.prems obtain k cs' where
      r: "allocate_client_ep cs e = Some (k, cs')" and i: "i = Suc k" and e: "eps' = c # cs'"
      by (auto split: option.splits)
    from Cons.IH [OF r] True i e show ?thesis
      by (auto simp: less_Suc_eq_0_disj)
  qed
qed

lemma allocate_None: "(allocate_client_ep eps e = None) = (\<forall>c\<in>set eps. in_use c)"
  by (induction eps) (auto split: option.splits)

lemma handler_table_full:
  assumes "\<forall>c\<in>set (client_eps st). in_use c"
  shows "forward_proxy_handler E st pdu remote =
           (Response COAP_CODE_INTERNAL_SERVER_ERROR, None, st)"
proof -
  have "allocate_client_ep (client_eps st) remote = None"
    using assms by (simp add: allocate_None)
  then show ?thesis
    by (simp add: forward_proxy_handler_def gcoap_forward_proxy_request_process_def)
qed

text \<open>
  C8. Allocation claims the leftmost slot that is not in use: every slot before the
  returned index is in use, the slot itself was free, and the table changes only there,
  where \<open>in_use\<close> becomes true, \<open>validating\<close> false and \<open>ep\<close> the client's endpoint. It
  succeeds whenever some slot is free. When every slot is in use it returns the null
  pointer, and the handler then answers 5.00 Internal Server Error and leaves the table,
  the cache and the trace as they were.
\<close>

theorem slot_allocation_first_free:
  "(allocate_client_ep eps e = Some (i, eps') \<longrightarrow>
      i < length eps \<and> \<not> in_use (eps ! i) \<and> (\<forall>j<i. in_use (eps ! j)) \<and>
      eps' = eps[i := (eps ! i)\<lparr>in_use := True, validating := False, ep := e\<rparr>]) \<and>
   ((\<exists>c\<in>set eps. \<not> in_use c) \<longrightarrow> allocate_client_ep eps e \<noteq> None) \<and>
   ((\<forall>c\<in>set (client_eps st). in_use c) \<longrightarrow>
      allocate_client_ep (client_eps st) remote = None \<and>
      forward_proxy_handler E st pdu remote =
        (Response COAP_CODE_INTERNAL_SERVER_ERROR, None, st))"
  using allocate_Some [of eps e i eps'] allocate_None [of eps e]
    allocate_None [of "client_eps st" remote] handler_table_full [of st E pdu remote]
  by blast

theorem slot_allocation_first_free_witness:
  "allocate_client_ep [ex_busy_slot False [], ex_free_slot] ex_client =
     Some (1, [ex_busy_slot False [],
               ex_free_slot\<lparr>in_use := True, validating := False, ep := ex_client\<rparr>]) \<and>
   in_use ([ex_busy_slot False [], ex_free_slot] ! 0) \<and>
   \<not> in_use ([ex_busy_slot False [], ex_free_slot] ! 1) \<and>
   list_all in_use (client_eps (ex_state [ex_busy_slot False [], ex_busy_slot True []] Map.empty)) \<and>
   allocate_client_ep
     (client_eps (ex_state [ex_busy_slot False [], ex_busy_slot True []] Map.empty)) ex_client = None \<and>
   forward_proxy_handler ex_env (ex_state [ex_busy_slot False [], ex_busy_slot True []] Map.empty)
     (ex_request 1 [] ''coap://[fe80::1%1]/a'' []) ex_client =
     (Response COAP_CODE_INTERNAL_SERVER_ERROR, None,
      ex_state [ex_busy_slot False [], ex_busy_slot True []] Map.empty)"
proof -
  have a: "allocate_client_ep [ex_busy_slot False [], ex_free_slot] ex_client =
     Some (1, [ex_busy_slot False [],
               ex_free_slot\<lparr>in_use := True, validating := False, ep := ex_client\<rparr>])"
    by (simp add: ex_busy_slot_def ex_free_slot_def)
  have f: "\<exists>c\<in>set [ex_busy_slot False [], ex_free_slot]. \<not> in_use c"
    by (simp add: ex_free_slot_def)
  have b: "\<forall>c\<in>set (client_eps (ex_state [ex_busy_slot False [], ex_busy_slot True []] Map.empty)).
      in_use c"
    by (simp add: ex_state_def ex_busy_slot_def)
  have l: "list_all in_use
      (client_eps (ex_state [ex_busy_slot False [], ex_busy_slot True []] Map.empty))"
    using b by (simp add: list_all_iff)
  have h: "forward_proxy_handler ex_env
      (ex_state [ex_busy_slot False [], ex_busy_slot True []] Map.empty)
      (ex_request 1 [] ''coap://[fe80::1%1]/a'' []) ex_client =
      (Response COAP_CODE_INTERNAL_SERVER_ERROR, None,
       ex_state [ex_busy_slot False [], ex_busy_slot True []] Map.empty) \<and>
     allocate_client_ep
       (client_eps (ex_state [ex_busy_slot False [], ex_busy_slot True []] Map.empty)) ex_client = None"
    using b
    slot_allocation_first_free [of "[ex_busy_slot False [], ex_free_slot]" ex_client 1
      "[ex_busy_slot False [],
        ex_free_slot\<lparr>in_use := True, validating := False, ep := ex_client\<rparr>]"
      "ex_state [ex_busy_slot False [], ex_busy_slot True []] Map.empty"
      ex_client ex_env "ex_request 1 [] ''coap://[fe80::1%1]/a'' []"]
    by blast
  have u: "in_use ([ex_busy_slot False [], ex_free_slot] ! 0)"
    by (simp add: ex_busy_slot_def)
  have v: "\<not> in_use ([ex_busy_slot False [], ex_free_slot] ! 1)"
    by (simp add: ex_free_slot_def)
  from a u v l h show ?thesis by blast
qed

subsection \<open>The path to the forwarding step\<close>

lemma lookup_miss:
  "\<not> fresh_hit E st pdu \<Longrightarrow>
   cache_lookup_and_process E st pdu i =
     (0, None, pdu, cache_tbl st (nanocoap_cache_key_generate E pdu),
      st\<lparr>client_eps := (client_eps st)[i := (client_eps st ! i)\<lparr>cache_key :=
            take (cache_key_length E) (nanocoap_cache_key_generate E pdu)\<rparr>]\<rparr>)"
  by (auto simp: fresh_hit_def cache_lookup_and_process_def Let_def split: option.splits)

lemma process_no_hit:
  assumes alloc: "allocate_client_ep (client_eps st) remote = Some (i, eps)"
    and miss: "cache_enabled E \<longrightarrow> \<not> fresh_hit E st pdu"
  shows "gcoap_forward_proxy_request_process E st pdu remote =
     (case proxy_uri pdu of
        Inl e \<Rightarrow> (- errno_of e, None, free_client_ep (after_miss E st pdu i eps) i)
      | Inr uri \<Rightarrow>
          (case uri_parser_process E uri of
             (ures, urip) \<Rightarrow>
               (if ures \<noteq> 0 \<or> \<not> uri_parser_is_absolute E uri
                then (- EINVAL, None, free_client_ep (after_miss E st pdu i eps) i)
                else if strncmp ''coap'' (scheme urip) (length (scheme urip)) = 0
                then
                  (case gcoap_forward_proxy_via_coap E (after_miss E st pdu i eps) pdu i urip
                          (if cache_enabled E
                           then cache_tbl st (nanocoap_cache_key_generate E pdu) else None) of
                     (res, st2) \<Rightarrow>
                       (if res < 0 then (- EINVAL, None, free_client_ep st2 i)
                        else (0, None, st2)))
                else (- EPERM, None, free_client_ep (after_miss E st pdu i eps) i))))"
proof (cases "cache_enabled E")
  case True
  with miss have m: "\<not> fresh_hit E (st\<lparr>client_eps := eps\<rparr>) pdu"
    by (simp add: fresh_hit_def)
  have am: "after_miss E st pdu i eps =
      st\<lparr>client_eps := eps[i := (eps ! i)\<lparr>cache_key :=
                 take (cache_key_length E) (nanocoap_cache_key_generate E pdu)\<rparr>]\<rparr>"
    using True by (simp add: after_miss_def)
  show ?thesis
    unfolding am using True alloc
    by (simp add: gcoap_forward_proxy_request_process_def lookup_miss [OF m])
next
  case False
  then have am: "after_miss E st pdu i eps = st\<lparr>client_eps := eps\<rparr>"
    by (simp add: after_miss_def)
  show ?thesis
    unfolding am using False alloc
    by (simp add: gcoap_forward_proxy_request_process_def)
qed

lemma after_miss_facts:
  assumes "allocate_client_ep (client_eps st) remote = Some (i, eps)"
  shows "trace (after_miss E st pdu i eps) = trace st"
    and "cache_tbl (after_miss E st pdu i eps) = cache_tbl st"
    and "map in_use (client_eps (after_miss E st pdu i eps)) = (map in_use (client_eps st))[i := True]"
    and "i < length (client_eps st)"
    and "\<not> in_use (client_eps st ! i)"
    and "\<not> validating (client_eps (after_miss E st pdu i eps) ! i)"
    and "length (client_eps (after_miss E st pdu i eps)) = length (client_eps st)"
    and "in_use (client_eps (after_miss E st pdu i eps) ! i)"
  using allocate_Some [OF assms]
  by (auto simp: after_miss_def map_update)

lemma free_facts:
  "trace (free_client_ep s i) = trace s"
  "cache_tbl (free_client_ep s i) = cache_tbl s"
  "map in_use (client_eps (free_client_ep s i)) = (map in_use (client_eps s))[i := False]"
  by (simp_all add: free_client_ep_def map_update zeroed_def)

lemma free_not_in_use:
  "i < length (client_eps s) \<Longrightarrow> \<not> in_use (client_eps (free_client_ep s i) ! i)"
  by (simp add: free_client_ep_def zeroed_def)

lemma released:
  assumes "allocate_client_ep (client_eps st) remote = Some (i, eps)"
  shows "map in_use (client_eps (free_client_ep (after_miss E st pdu i eps) i)) =
           map in_use (client_eps st)"
    and "\<not> in_use (client_eps (free_client_ep (after_miss E st pdu i eps) i) ! i)"
    and "trace (free_client_ep (after_miss E st pdu i eps) i) = trace st"
    and "cache_tbl (free_client_ep (after_miss E st pdu i eps) i) = cache_tbl st"
proof -
  have "(map in_use (client_eps st)) ! i = False"
    using after_miss_facts(4,5) [OF assms] by simp
  then have "(map in_use (client_eps st))[i := False] = map in_use (client_eps st)"
    using list_update_id [of "map in_use (client_eps st)" i] by simp
  then show "map in_use (client_eps (free_client_ep (after_miss E st pdu i eps) i)) =
           map in_use (client_eps st)"
    by (simp add: free_facts after_miss_facts(3) [OF assms])
  show "\<not> in_use (client_eps (free_client_ep (after_miss E st pdu i eps) i) ! i)"
    using after_miss_facts(4) [OF assms] after_miss_facts(7) [OF assms] by (simp add: free_not_in_use)
  show "trace (free_client_ep (after_miss E st pdu i eps) i) = trace st"
    by (simp add: free_facts after_miss_facts(1) [OF assms])
  show "cache_tbl (free_client_ep (after_miss E st pdu i eps) i) = cache_tbl st"
    by (simp add: free_facts after_miss_facts(2) [OF assms])
qed

lemma via_coap_memo:
  "parse_endpoint E urip = Some origin \<Longrightarrow> find_req_memo E pkt origin \<Longrightarrow>
   gcoap_forward_proxy_via_coap E s pkt i urip ce = (0, free_client_ep s i)"
  by (simp add: gcoap_forward_proxy_via_coap_def)

lemma via_coap_send:
  assumes "parse_endpoint E urip = Some origin" and "\<not> find_req_memo E pkt origin"
    and "gcoap_forward_proxy_copy_options E pkt (validating (client_eps s ! i)) urip ce =
           (len, opts, pl, v)"
    and "len \<noteq> - EINVAL"
  shows "gcoap_forward_proxy_via_coap E s pkt i urip ce =
     (gcoap_req_send E
        \<lparr>o_ver_t_tkl = ver_t_tkl pkt, o_code = code pkt, o_id = msg_id pkt,
         o_token = token pkt, o_opts = opts, o_payload = pl\<rparr> len origin,
      s\<lparr>client_eps := (client_eps s)[i := (client_eps s ! i)\<lparr>validating := v\<rparr>],
        trace := trace s @
          [Req_send \<lparr>o_ver_t_tkl = ver_t_tkl pkt, o_code = code pkt, o_id = msg_id pkt,
                     o_token = token pkt, o_opts = opts, o_payload = pl\<rparr> len origin i]\<rparr>)"
  using assms by (simp add: gcoap_forward_proxy_via_coap_def Let_def)

subsection \<open>Duplicate requests\<close>

text \<open>
  C6. A request that reaches the memo check (a slot was claimed, the cache served no
  response, the Proxy-Uri is an absolute URI that parses, its scheme passes the scheme
  test and its authority resolves to an endpoint) and for which the engine's memo table
  already holds a request for the same packet and origin: the request processing returns
  0, so the handler returns length 0 and no response is sent; the slot is zeroed again, so
  the table's \<open>in_use\<close> flags are as before the request; the trace is unchanged, so there
  is no upstream send.
\<close>

theorem duplicate_in_flight_request_dropped:
  assumes alloc: "allocate_client_ep (client_eps st) remote = Some (i, eps)"
    and miss: "cache_enabled E \<longrightarrow> \<not> fresh_hit E st pdu"
    and uri: "proxy_uri pdu = Inr uri"
    and parsed: "uri_parser_process E uri = (0, urip)"
    and absolute: "uri_parser_is_absolute E uri"
    and coap: "strncmp ''coap'' (scheme urip) (length (scheme urip)) = 0"
    and origin: "parse_endpoint E urip = Some origin"
    and memo: "find_req_memo E pdu origin"
  shows "gcoap_forward_proxy_request_process E st pdu remote =
           (0, None, free_client_ep (after_miss E st pdu i eps) i) \<and>
         forward_proxy_handler E st pdu remote =
           (Pdu_len 0, None, free_client_ep (after_miss E st pdu i eps) i) \<and>
         trace (free_client_ep (after_miss E st pdu i eps) i) = trace st \<and>
         \<not> in_use (client_eps (free_client_ep (after_miss E st pdu i eps) i) ! i) \<and>
         map in_use (client_eps (free_client_ep (after_miss E st pdu i eps) i)) =
           map in_use (client_eps st)"
proof -
  have p: "gcoap_forward_proxy_request_process E st pdu remote =
           (0, None, free_client_ep (after_miss E st pdu i eps) i)"
    by (simp add: process_no_hit [OF alloc miss] uri parsed absolute coap
        via_coap_memo [OF origin memo])
  have h: "forward_proxy_handler E st pdu remote =
           (Pdu_len 0, None, free_client_ep (after_miss E st pdu i eps) i)"
    by (simp add: forward_proxy_handler_def p ENOMEM_def EINVAL_def EPERM_def)
  from p h released [OF alloc, of E pdu] show ?thesis by simp
qed

lemma ex_alloc:
  "allocate_client_ep (client_eps (ex_state [ex_busy_slot False [], ex_free_slot] c)) ex_client =
     Some (1, [ex_busy_slot False [],
               ex_free_slot\<lparr>in_use := True, validating := False, ep := ex_client\<rparr>])"
  by (simp add: ex_state_def ex_busy_slot_def ex_free_slot_def)

lemma ex_no_hit:
  "\<not> fresh_hit E (ex_state eps Map.empty) pdu"
  by (simp add: fresh_hit_def ex_state_def)

lemma ex_parse_endpoint:
  "parse_endpoint (ex_env\<lparr>find_req_memo := m, gcoap_req_send := s\<rparr>) (ex_urip sch q) =
     Some \<lparr>family = AF_INET6, addr = [254, 128, 0, 0, 0, 0, 0, 0, 0, 0, 0, 0, 0, 0, 0, 1],
           netif = 1, port = COAP_PORT\<rparr>"
  by (simp add: parse_endpoint_def ex_env_def ex_urip_def SOCK_ADDR_ANY_NETIF_def)

lemma strncmp_coap: "strncmp ''coap'' ''coap'' (length ''coap'') = 0"
  by simp

theorem duplicate_in_flight_request_dropped_witness:
  "forward_proxy_handler (ex_env\<lparr>find_req_memo := \<lambda>p e. True, gcoap_req_send := \<lambda>p l e. l\<rparr>)
     (ex_state [ex_busy_slot False [], ex_free_slot] Map.empty)
     (ex_request 1 [] ''coap://[fe80::1%1]/a'' []) ex_client =
   (Pdu_len 0, None,
    free_client_ep
      (after_miss (ex_env\<lparr>find_req_memo := \<lambda>p e. True, gcoap_req_send := \<lambda>p l e. l\<rparr>)
         (ex_state [ex_busy_slot False [], ex_free_slot] Map.empty)
         (ex_request 1 [] ''coap://[fe80::1%1]/a'' []) 1
         [ex_busy_slot False [],
          ex_free_slot\<lparr>in_use := True, validating := False, ep := ex_client\<rparr>]) 1) \<and>
   trace (free_client_ep
      (after_miss (ex_env\<lparr>find_req_memo := \<lambda>p e. True, gcoap_req_send := \<lambda>p l e. l\<rparr>)
         (ex_state [ex_busy_slot False [], ex_free_slot] Map.empty)
         (ex_request 1 [] ''coap://[fe80::1%1]/a'' []) 1
         [ex_busy_slot False [],
          ex_free_slot\<lparr>in_use := True, validating := False, ep := ex_client\<rparr>]) 1) = []"
proof -
  let ?E = "ex_env\<lparr>find_req_memo := \<lambda>p e. True, gcoap_req_send := \<lambda>p l e. l\<rparr>"
  let ?st = "ex_state [ex_busy_slot False [], ex_free_slot] Map.empty"
  let ?pdu = "ex_request 1 [] ''coap://[fe80::1%1]/a'' []"
  have miss: "cache_enabled ?E \<longrightarrow> \<not> fresh_hit ?E ?st ?pdu"
    by (simp add: ex_no_hit)
  have uri: "proxy_uri ?pdu = Inr ''coap://[fe80::1%1]/a''"
    by (simp add: ex_request_def)
  have parsed: "uri_parser_process ?E ''coap://[fe80::1%1]/a'' = (0, ex_urip ''coap'' None)"
    by (simp add: ex_env_def ex_uri_parser_process_def)
  have absolute: "uri_parser_is_absolute ?E ''coap://[fe80::1%1]/a''"
    by (simp add: ex_env_def)
  have coap: "strncmp ''coap'' (scheme (ex_urip ''coap'' None))
      (length (scheme (ex_urip ''coap'' None))) = 0"
    by (simp add: ex_urip_def)
  have memo: "find_req_memo ?E ?pdu
      \<lparr>family = AF_INET6, addr = [254, 128, 0, 0, 0, 0, 0, 0, 0, 0, 0, 0, 0, 0, 0, 1],
       netif = 1, port = COAP_PORT\<rparr>"
    by simp
  have t: "trace ?st = []"
    by (simp add: ex_state_def)
  from duplicate_in_flight_request_dropped
    [OF ex_alloc miss uri parsed absolute coap ex_parse_endpoint memo] t
  show ?thesis by simp
qed

subsection \<open>The result of the upstream send\<close>

text \<open>
  C10. A request that reaches the send step (a slot was claimed, the cache served no
  response, the Proxy-Uri is an absolute URI that parses, its scheme passes the scheme
  test, its authority resolves, no memo exists for it, and the option rewriter returned a
  length other than \<open>-EINVAL\<close>): the send primitive is called once with the rewritten
  packet. If it returns a negative value, request processing returns \<open>-EINVAL\<close>, the
  handler answers 4.02 Bad Option, and the slot is zeroed. If it returns 0 (or any
  non-negative value), request processing returns 0 and the slot stays in use.
\<close>

theorem send_result_mapping:
  assumes alloc: "allocate_client_ep (client_eps st) remote = Some (i, eps)"
    and miss: "cache_enabled E \<longrightarrow> \<not> fresh_hit E st pdu"
    and uri: "proxy_uri pdu = Inr uri"
    and parsed: "uri_parser_process E uri = (0, urip)"
    and absolute: "uri_parser_is_absolute E uri"
    and coap: "strncmp ''coap'' (scheme urip) (length (scheme urip)) = 0"
    and origin: "parse_endpoint E urip = Some origin"
    and memo: "\<not> find_req_memo E pdu origin"
    and copy: "gcoap_forward_proxy_copy_options E pdu False urip
                 (if cache_enabled E then cache_tbl st (nanocoap_cache_key_generate E pdu)
                  else None) = (len, opts, pl, v)"
    and len: "len \<noteq> - EINVAL"
    and pkt: "pkt = \<lparr>o_ver_t_tkl = ver_t_tkl pdu, o_code = code pdu, o_id = msg_id pdu,
                     o_token = token pdu, o_opts = opts, o_payload = pl\<rparr>"
    and res: "gcoap_forward_proxy_request_process E st pdu remote = (r, b, st')"
  shows "trace st' = trace st @ [Req_send pkt len origin i] \<and>
         (gcoap_req_send E pkt len origin < 0 \<longrightarrow>
            r = - EINVAL \<and>
            fst (forward_proxy_handler E st pdu remote) = Response COAP_CODE_BAD_OPTION \<and>
            \<not> in_use (client_eps st' ! i) \<and>
            map in_use (client_eps st') = map in_use (client_eps st)) \<and>
         (0 \<le> gcoap_req_send E pkt len origin \<longrightarrow>
            r = 0 \<and>
            fst (forward_proxy_handler E st pdu remote) = Pdu_len 0 \<and>
            in_use (client_eps st' ! i) \<and>
            map in_use (client_eps st') = (map in_use (client_eps st))[i := True])"
proof -
  let ?s = "after_miss E st pdu i eps"
  let ?sent = "?s\<lparr>client_eps := (client_eps ?s)[i := (client_eps ?s ! i)\<lparr>validating := v\<rparr>],
                  trace := trace ?s @ [Req_send pkt len origin i]\<rparr>"
  have v0: "validating (client_eps ?s ! i) = False"
    using after_miss_facts(6) [OF alloc] by simp
  have via: "gcoap_forward_proxy_via_coap E ?s pdu i urip
      (if cache_enabled E then cache_tbl st (nanocoap_cache_key_generate E pdu) else None) =
      (gcoap_req_send E pkt len origin, ?sent)"
    using via_coap_send [OF origin memo, of ?s i _ len opts pl v] copy len
    by (simp add: v0 pkt)
  have p: "gcoap_forward_proxy_request_process E st pdu remote =
      (if gcoap_req_send E pkt len origin < 0 then (- EINVAL, None, free_client_ep ?sent i)
       else (0, None, ?sent))"
    by (simp add: process_no_hit [OF alloc miss] uri parsed absolute coap via)
  have i: "i < length (client_eps st)" and n: "length (client_eps ?s) = length (client_eps st)"
    using after_miss_facts(4) [OF alloc] after_miss_facts(7) [OF alloc] by simp_all
  have flags: "map in_use (client_eps ?sent) = (map in_use (client_eps st))[i := True]"
    using after_miss_facts(3) [OF alloc, of E pdu] after_miss_facts(8) [OF alloc, of E pdu] i n
    by (simp add: map_update)
  have old: "(map in_use (client_eps st))[i := False] = map in_use (client_eps st)"
    using list_update_id [of "map in_use (client_eps st)" i] after_miss_facts(5) [OF alloc] i
    by simp
  show ?thesis
  proof (cases "gcoap_req_send E pkt len origin < 0")
    case True
    with p res have r: "r = - EINVAL" and s: "st' = free_client_ep ?sent i"
      by simp_all
    have h: "fst (forward_proxy_handler E st pdu remote) = Response COAP_CODE_BAD_OPTION"
      using True by (simp add: forward_proxy_handler_def p ENOMEM_def EINVAL_def)
    have t: "trace st' = trace st @ [Req_send pkt len origin i]"
      by (simp add: s free_facts after_miss_facts(1) [OF alloc])
    have u: "\<not> in_use (client_eps st' ! i)"
      unfolding s using i n by (simp add: free_not_in_use)
    have m: "map in_use (client_eps st') = map in_use (client_eps st)"
      unfolding s by (simp only: free_facts flags list_update_overwrite old)
    from True r h t u m show ?thesis by simp
  next
    case False
    with p res have r: "r = 0" and s: "st' = ?sent"
      by simp_all
    have h: "fst (forward_proxy_handler E st pdu remote) = Pdu_len 0"
      using False by (simp add: forward_proxy_handler_def p ENOMEM_def EINVAL_def EPERM_def)
    have t: "trace st' = trace st @ [Req_send pkt len origin i]"
      by (simp add: s after_miss_facts(1) [OF alloc])
    have u: "in_use (client_eps st' ! i)"
    proof -
      have "map in_use (client_eps st') ! i = True"
        unfolding s flags using i by simp
      moreover have "i < length (client_eps st')"
        unfolding s using i n by simp
      ultimately show ?thesis by simp
    qed
    from False r h t u flags s show ?thesis by simp
  qed
qed

lemma ex_copy_plain:
  "gcoap_forward_proxy_copy_options (ex_env\<lparr>find_req_memo := m, gcoap_req_send := s\<rparr>)
     (ex_request 1 [] u []) False (ex_urip sch None) None =
     (6, [(11, [97])], [], False)"
  by (simp add: gcoap_forward_proxy_copy_options_def ex_request_def copy_step_def
      add_cache_etag_def gcoap_forward_proxy_add_uri_path_def coap_opt_add_chars_def
      coap_opt_add_opaque_def ex_env_def ex_urip_def ex_segments_def
      COAP_OPT_ETAG_def COAP_OPT_URI_PATH_def COAP_OPT_PROXY_URI_def COAP_OPT_URI_QUERY_def)

theorem send_result_mapping_witness:
  "fst (gcoap_forward_proxy_request_process
          (ex_env\<lparr>find_req_memo := \<lambda>p e. False, gcoap_req_send := \<lambda>p l e. - 1\<rparr>)
          (ex_state [ex_busy_slot False [], ex_free_slot] Map.empty)
          (ex_request 1 [] ''coap://[fe80::1%1]/a'' []) ex_client) = - EINVAL \<and>
   fst (forward_proxy_handler
          (ex_env\<lparr>find_req_memo := \<lambda>p e. False, gcoap_req_send := \<lambda>p l e. - 1\<rparr>)
          (ex_state [ex_busy_slot False [], ex_free_slot] Map.empty)
          (ex_request 1 [] ''coap://[fe80::1%1]/a'' []) ex_client) =
     Response COAP_CODE_BAD_OPTION \<and>
   \<not> in_use (client_eps (snd (snd (gcoap_forward_proxy_request_process
          (ex_env\<lparr>find_req_memo := \<lambda>p e. False, gcoap_req_send := \<lambda>p l e. - 1\<rparr>)
          (ex_state [ex_busy_slot False [], ex_free_slot] Map.empty)
          (ex_request 1 [] ''coap://[fe80::1%1]/a'' []) ex_client))) ! 1) \<and>
   fst (gcoap_forward_proxy_request_process
          (ex_env\<lparr>find_req_memo := \<lambda>p e. False, gcoap_req_send := \<lambda>p l e. 0\<rparr>)
          (ex_state [ex_busy_slot False [], ex_free_slot] Map.empty)
          (ex_request 1 [] ''coap://[fe80::1%1]/a'' []) ex_client) = 0 \<and>
   in_use (client_eps (snd (snd (gcoap_forward_proxy_request_process
          (ex_env\<lparr>find_req_memo := \<lambda>p e. False, gcoap_req_send := \<lambda>p l e. 0\<rparr>)
          (ex_state [ex_busy_slot False [], ex_free_slot] Map.empty)
          (ex_request 1 [] ''coap://[fe80::1%1]/a'' []) ex_client))) ! 1)"
proof -
  let ?st = "ex_state [ex_busy_slot False [], ex_free_slot] Map.empty"
  let ?pdu = "ex_request 1 [] ''coap://[fe80::1%1]/a'' []"
  let ?o = "\<lparr>family = AF_INET6, addr = [254, 128, 0, 0, 0, 0, 0, 0, 0, 0, 0, 0, 0, 0, 0, 1],
            netif = 1, port = COAP_PORT\<rparr>"
  have uri: "proxy_uri ?pdu = Inr ''coap://[fe80::1%1]/a''"
    by (simp add: ex_request_def)
  have coap: "strncmp ''coap'' (scheme (ex_urip ''coap'' None))
      (length (scheme (ex_urip ''coap'' None))) = 0"
    by (simp add: ex_urip_def)
  have len: "(6::int) \<noteq> - EINVAL"
    by (simp add: EINVAL_def)
  have part: "fst (gcoap_forward_proxy_request_process E ?st ?pdu ex_client) =
        (if c < 0 then - EINVAL else 0) \<and>
      fst (forward_proxy_handler E ?st ?pdu ex_client) =
        (if c < 0 then Response COAP_CODE_BAD_OPTION else Pdu_len 0) \<and>
      in_use (client_eps (snd (snd (gcoap_forward_proxy_request_process E ?st ?pdu ex_client))) ! 1) =
        (0 \<le> c)"
    if E: "E = ex_env\<lparr>find_req_memo := \<lambda>p e. False, gcoap_req_send := \<lambda>p l e. c\<rparr>"
    for E and c :: int
  proof -
    have miss: "cache_enabled E \<longrightarrow> \<not> fresh_hit E ?st ?pdu"
      by (simp add: ex_no_hit)
    have parsed: "uri_parser_process E ''coap://[fe80::1%1]/a'' = (0, ex_urip ''coap'' None)"
      by (simp add: E ex_env_def ex_uri_parser_process_def)
    have absolute: "uri_parser_is_absolute E ''coap://[fe80::1%1]/a''"
      by (simp add: E ex_env_def)
    have origin: "parse_endpoint E (ex_urip ''coap'' None) = Some ?o"
      unfolding E by (rule ex_parse_endpoint)
    have memo: "\<not> find_req_memo E ?pdu ?o"
      by (simp add: E)
    have copy: "gcoap_forward_proxy_copy_options E ?pdu False (ex_urip ''coap'' None)
        (if cache_enabled E then cache_tbl ?st (nanocoap_cache_key_generate E ?pdu) else None) =
        (6, [(11, [97])], [], False)"
      using ex_copy_plain [where m = "\<lambda>p e. False" and s = "\<lambda>p l e. c"]
      by (simp add: E ex_state_def)
    have res: "gcoap_forward_proxy_request_process E ?st ?pdu ex_client =
        (fst (gcoap_forward_proxy_request_process E ?st ?pdu ex_client),
         fst (snd (gcoap_forward_proxy_request_process E ?st ?pdu ex_client)),
         snd (snd (gcoap_forward_proxy_request_process E ?st ?pdu ex_client)))"
      by simp
    have send: "gcoap_req_send E pkt l e = c" for pkt l e
      by (simp add: E)
    show ?thesis
      using send_result_mapping
        [OF ex_alloc miss uri parsed absolute coap origin memo copy len refl res]
      by (auto simp: send)
  qed
  from part [of _ "- 1", OF refl] part [of _ 0, OF refl]
  show ?thesis by simp
qed

subsection \<open>Rejected Proxy-Uri options\<close>



subsection \<open>The scheme test\<close>

lemma of_char_eq_int: "((of_char a :: int) = of_char b) = (a = b)"
  by (metis char_of_char)

lemma of_char_zero_int: "((of_char a :: int) = 0) = (a = CHR 0x00)"
  using of_char_eq_int [of a "CHR 0x00"] by simp

text \<open>
  With the length of the second string as the bound, \<open>strncmp\<close> returns 0 exactly when
  the second string is a prefix of the first (neither containing a NUL). So line 512
  accepts every scheme that is a prefix of \<open>coap\<close>.
\<close>

lemma strncmp_bounded_by_second:
  assumes "\<forall>c\<in>set s. c \<noteq> CHR 0x00" and "\<forall>c\<in>set lit. c \<noteq> CHR 0x00"
  shows "(strncmp lit s (length s) = 0) = (\<exists>t. lit = s @ t)"
  using assms
proof (induction s arbitrary: lit)
  case Nil
  then show ?case by simp
next
  case (Cons a s1)
  note IH = Cons.IH and prems = Cons.prems
  show ?case
  proof (cases lit)
    case Nil
    with prems show ?thesis by (simp add: of_char_zero_int)
  next
    case (Cons b l1)
    note lit = Cons
    show ?thesis
    proof (cases "a = b")
      case True
      have "strncmp lit (a # s1) (length (a # s1)) = strncmp l1 s1 (length s1)"
        using lit True prems by (simp add: of_char_zero_int)
      also have "(\<dots> = 0) = (\<exists>t. l1 = s1 @ t)"
        using IH [of l1] prems lit by simp
      finally show ?thesis using lit True by simp
    next
      case False
      then have "strncmp lit (a # s1) (length (a # s1)) \<noteq> 0"
        using lit by (simp add: of_char_eq_int)
      with False lit show ?thesis by simp
    qed
  qed
qed

text \<open>
  C2 at a failing input. The Proxy-Uri \<open>co://[fe80::1%1]/a\<close> has the scheme token \<open>co\<close>.
  The request is not rejected with 5.05: it takes the forwarding path, the handler returns
  length 0, and one request is handed to the engine's send primitive.
\<close>

theorem scheme_prefix_is_forwarded:
  "scheme (snd (uri_parser_process ex_env ''co://[fe80::1%1]/a'')) = ''co'' \<and>
   strncmp ''coap'' ''co'' (length ''co'') = 0 \<and>
   fst (forward_proxy_handler ex_env (ex_state [ex_busy_slot False [], ex_free_slot] Map.empty)
          (ex_request 1 [] ''co://[fe80::1%1]/a'' []) ex_client) = Pdu_len 0 \<and>
   trace (snd (snd (forward_proxy_handler ex_env
          (ex_state [ex_busy_slot False [], ex_free_slot] Map.empty)
          (ex_request 1 [] ''co://[fe80::1%1]/a'' []) ex_client))) =
     [Req_send \<lparr>o_ver_t_tkl = 65, o_code = 1, o_id = 4660, o_token = [171],
                o_opts = [(11, [97])], o_payload = []\<rparr> 6
        \<lparr>family = AF_INET6, addr = [254, 128, 0, 0, 0, 0, 0, 0, 0, 0, 0, 0, 0, 0, 0, 1],
         netif = 1, port = COAP_PORT\<rparr> 1]"
proof -
  let ?st = "ex_state [ex_busy_slot False [], ex_free_slot] Map.empty"
  let ?pdu = "ex_request 1 [] ''co://[fe80::1%1]/a'' []"
  let ?o = "\<lparr>family = AF_INET6, addr = [254, 128, 0, 0, 0, 0, 0, 0, 0, 0, 0, 0, 0, 0, 0, 1],
            netif = 1, port = COAP_PORT\<rparr>"
  let ?s = "after_miss ex_env ?st ?pdu 1
      [ex_busy_slot False [], ex_free_slot\<lparr>in_use := True, validating := False, ep := ex_client\<rparr>]"
  have E: "ex_env = ex_env\<lparr>find_req_memo := \<lambda>p e. False, gcoap_req_send := \<lambda>p l e. l\<rparr>"
    by (simp add: ex_env_def)
  have miss: "cache_enabled ex_env \<longrightarrow> \<not> fresh_hit ex_env ?st ?pdu"
    by (simp add: ex_no_hit)
  have uri: "proxy_uri ?pdu = Inr ''co://[fe80::1%1]/a''"
    by (simp add: ex_request_def)
  have parsed: "uri_parser_process ex_env ''co://[fe80::1%1]/a'' = (0, ex_urip ''co'' None)"
    by (simp add: ex_env_def ex_uri_parser_process_def)
  have absolute: "uri_parser_is_absolute ex_env ''co://[fe80::1%1]/a''"
    by (simp add: ex_env_def)
  have co: "strncmp ''coap'' ''co'' (length ''co'') = 0"
    by simp
  have origin: "parse_endpoint ex_env (ex_urip ''co'' None) = Some ?o"
    using ex_parse_endpoint [where m = "\<lambda>p e. False" and s = "\<lambda>p l e. l" and sch = "''co''"
        and q = None] E by simp
  have memo: "\<not> find_req_memo ex_env ?pdu ?o"
    by (simp add: ex_env_def)
  have v0: "validating (client_eps ?s ! 1) = False"
    using after_miss_facts(6) [OF ex_alloc] by simp
  have none: "(if cache_enabled ex_env
               then cache_tbl ?st (nanocoap_cache_key_generate ex_env ?pdu) else None) = None"
    by (simp add: ex_state_def)
  have copy: "gcoap_forward_proxy_copy_options ex_env ?pdu (validating (client_eps ?s ! 1))
      (ex_urip ''co'' None) None = (6, [(11, [97])], [], False)"
    using ex_copy_plain [where m = "\<lambda>p e. False" and s = "\<lambda>p l e. l" and sch = "''co''"
        and u = "''co://[fe80::1%1]/a''"] E v0
    by simp
  have len: "(6::int) \<noteq> - EINVAL"
    by (simp add: EINVAL_def)
  have send: "gcoap_req_send ex_env pkt 6 ?o = 6" for pkt
    by (simp add: ex_env_def)
  have hdr: "ver_t_tkl ?pdu = 65 \<and> code ?pdu = 1 \<and> msg_id ?pdu = 4660 \<and> token ?pdu = [171]"
    by (simp add: ex_request_def)
  have t0: "trace ?s = []"
    using after_miss_facts(1) [OF ex_alloc, where E = ex_env and pdu = ?pdu] by (simp add: ex_state_def)
  have sch: "scheme (ex_urip ''co'' None) = ''co''"
    by (simp add: ex_urip_def)
  have via: "gcoap_forward_proxy_via_coap ex_env ?s ?pdu 1 (ex_urip ''co'' None) None =
      (6,
       ?s\<lparr>client_eps := (client_eps ?s)[1 := (client_eps ?s ! 1)\<lparr>validating := False\<rparr>],
          trace := trace ?s @
            [Req_send \<lparr>o_ver_t_tkl = 65, o_code = 1, o_id = 4660, o_token = [171],
                       o_opts = [(11, [97])], o_payload = []\<rparr> 6 ?o 1]\<rparr>)"
    using via_coap_send [OF origin memo copy len] send hdr
    by (simp del: One_nat_def)
  have p: "gcoap_forward_proxy_request_process ex_env ?st ?pdu ex_client =
      (0, None,
       ?s\<lparr>client_eps := (client_eps ?s)[1 := (client_eps ?s ! 1)\<lparr>validating := False\<rparr>],
          trace := trace ?s @
            [Req_send \<lparr>o_ver_t_tkl = 65, o_code = 1, o_id = 4660, o_token = [171],
                       o_opts = [(11, [97])], o_payload = []\<rparr> 6 ?o 1]\<rparr>)"
    by (simp add: process_no_hit [OF ex_alloc miss] uri parsed absolute none sch via
        del: One_nat_def)
  have h: "forward_proxy_handler ex_env ?st ?pdu ex_client =
      (Pdu_len 0, None,
       ?s\<lparr>client_eps := (client_eps ?s)[1 := (client_eps ?s ! 1)\<lparr>validating := False\<rparr>],
          trace := trace ?s @
            [Req_send \<lparr>o_ver_t_tkl = 65, o_code = 1, o_id = 4660, o_token = [171],
                       o_opts = [(11, [97])], o_payload = []\<rparr> 6 ?o 1]\<rparr>)"
    by (simp add: forward_proxy_handler_def p ENOMEM_def EINVAL_def EPERM_def)
  show ?thesis
    by (simp add: h t0 parsed sch del: One_nat_def)
qed

subsection \<open>The response handler\<close>

lemma dispatch_facts:
  "trace (dispatch w n e s) = trace s @ [Dispatch w n e]"
  "cache_tbl (dispatch w n e s) = cache_tbl s"
  "client_eps (dispatch w n e s) = client_eps s"
  by (simp_all add: dispatch_def)

text \<open>
  C4. With the cache module compiled in, for a received response with code 2.03 Valid on a
  slot whose \<open>validating\<close> flag is false, the handler looks the entry up under the slot's
  \<open>cache_key\<close>. If there is one, its \<open>max_age\<close> becomes the current time plus the
  response's Max-Age (60 when the option gives none), and exactly one packet is dispatched,
  to the slot's client endpoint: the header written with the cached response's code
  followed by the cached options and payload. If there is none, the cache and the trace
  stay as they are: nothing is dispatched. In both cases the slot is zeroed.
\<close>

theorem valid_response_revalidates_cache_entry:
  assumes enabled: "cache_enabled E"
    and resp: "memo_state memo = GCOAP_MEMO_RESP"
    and valid: "code pdu = COAP_CODE_VALID"
    and cep: "cep = client_eps st ! memo_context memo"
    and nonval: "\<not> validating cep"
  shows "(cache_tbl st (cache_key cep) = Some ce \<longrightarrow>
           forward_resp_handler E st memo pdu =
             free_client_ep
               (st\<lparr>cache_tbl := (cache_tbl st)(cache_key cep \<mapsto>
                       ce\<lparr>max_age := ztimer_now E +
                                       (case max_age_opt pdu of Some m \<Rightarrow> m | None \<Rightarrow> 60)\<rparr>),
                    trace := trace st @
                      [Dispatch
                         (Built (Resp_cached (gcoap_resp_init E pdu (code (response_pkt ce)))
                            (take (unat (response_len ce - total_hdr_len (response_pkt ce)))
                               (drop (unat (total_hdr_len (response_pkt ce))) (response_buf ce)))))
                         (unat (total_hdr_len pdu +
                                (response_len ce - total_hdr_len (response_pkt ce))))
                         (ep cep)]\<rparr>)
               (memo_context memo)) \<and>
         (cache_tbl st (cache_key cep) = None \<longrightarrow>
           forward_resp_handler E st memo pdu = free_client_ep st (memo_context memo) \<and>
           trace (forward_resp_handler E st memo pdu) = trace st \<and>
           cache_tbl (forward_resp_handler E st memo pdu) = cache_tbl st)"
proof -
  have h: "forward_resp_handler E st memo pdu =
      free_client_ep (revalidate E cep pdu st) (memo_context memo)"
    using enabled resp valid nonval
    by (simp add: forward_resp_handler_def Let_def cep)
  have found: "revalidate E cep pdu st =
      st\<lparr>cache_tbl := (cache_tbl st)(cache_key cep \<mapsto>
              ce\<lparr>max_age := ztimer_now E + (case max_age_opt pdu of Some m \<Rightarrow> m | None \<Rightarrow> 60)\<rparr>),
         trace := trace st @
           [Dispatch
              (Built (Resp_cached (gcoap_resp_init E pdu (code (response_pkt ce)))
                 (take (unat (response_len ce - total_hdr_len (response_pkt ce)))
                    (drop (unat (total_hdr_len (response_pkt ce))) (response_buf ce)))))
              (unat (total_hdr_len pdu + (response_len ce - total_hdr_len (response_pkt ce))))
              (ep cep)]\<rparr>"
    if "cache_tbl st (cache_key cep) = Some ce"
    using that by (simp add: revalidate_def Let_def dispatch_def)
  have gone: "revalidate E cep pdu st = st" if "cache_tbl st (cache_key cep) = None"
    using that by (simp add: revalidate_def)
  show ?thesis
    using found gone by (auto simp: h free_facts)
qed

theorem valid_response_revalidates_cache_entry_witness:
  "cache_tbl (ex_state [ex_busy_slot False [1, 20, 0, 0, 0, 0, 0, 0]] (ex_cache 500))
     [1, 20, 0, 0, 0, 0, 0, 0] = Some (ex_entry 500) \<and>
   map_option max_age
     (cache_tbl (forward_resp_handler ex_env
        (ex_state [ex_busy_slot False [1, 20, 0, 0, 0, 0, 0, 0]] (ex_cache 500))
        (ex_memo GCOAP_MEMO_RESP 0) (ex_response 67 None (Some 120) []))
      [1, 20, 0, 0, 0, 0, 0, 0]) = Some 1120 \<and>
   trace (forward_resp_handler ex_env
        (ex_state [ex_busy_slot False [1, 20, 0, 0, 0, 0, 0, 0]] (ex_cache 500))
        (ex_memo GCOAP_MEMO_RESP 0) (ex_response 67 None (Some 120) [])) =
     [Dispatch
        (Built (Resp_cached (ex_resp_init (ex_response 67 None (Some 120) []) 69)
                  [65, 225, 255, 104, 105])) 10 ex_client] \<and>
   map_option max_age
     (cache_tbl (forward_resp_handler ex_env
        (ex_state [ex_busy_slot False [1, 20, 0, 0, 0, 0, 0, 0]] (ex_cache 500))
        (ex_memo GCOAP_MEMO_RESP 0) (ex_response 67 None None []))
      [1, 20, 0, 0, 0, 0, 0, 0]) = Some 1060 \<and>
   trace (forward_resp_handler ex_env
        (ex_state [ex_busy_slot False [1, 20, 0, 0, 0, 0, 0, 0]] Map.empty)
        (ex_memo GCOAP_MEMO_RESP 0) (ex_response 67 None (Some 120) [])) = []"
proof -
  let ?k = "[1, 20, 0, 0, 0, 0, 0, 0] :: bytes"
  let ?st = "ex_state [ex_busy_slot False ?k] (ex_cache 500)"
  let ?gone = "ex_state [ex_busy_slot False ?k] Map.empty"
  let ?memo = "ex_memo GCOAP_MEMO_RESP 0"
  have enabled: "cache_enabled ex_env"
    by (simp add: ex_env_def)
  have resp: "memo_state ?memo = GCOAP_MEMO_RESP"
    by (simp add: ex_memo_def)
  have valid: "code (ex_response 67 None ma []) = COAP_CODE_VALID" for ma
    by (simp add: ex_response_def COAP_CODE_VALID_def)
  have cep: "ex_busy_slot False ?k = client_eps ?st ! memo_context ?memo"
    "ex_busy_slot False ?k = client_eps ?gone ! memo_context ?memo"
    by (simp_all add: ex_state_def ex_memo_def)
  have nonval: "\<not> validating (ex_busy_slot False ?k)"
    by (simp add: ex_busy_slot_def)
  have key: "cache_key (ex_busy_slot False ?k) = ?k"
    by (simp add: ex_busy_slot_def)
  have found: "cache_tbl ?st (cache_key (ex_busy_slot False ?k)) = Some (ex_entry 500)"
    by (simp add: ex_state_def ex_cache_def key)
  have gone: "cache_tbl ?gone (cache_key (ex_busy_slot False ?k)) = None"
    by (simp add: ex_state_def)
  have a: "forward_resp_handler ex_env ?st ?memo (ex_response 67 None ma []) =
      free_client_ep
        (?st\<lparr>cache_tbl := (cache_tbl ?st)(?k \<mapsto>
                 (ex_entry 500)\<lparr>max_age := 1000 + (case ma of Some m \<Rightarrow> m | None \<Rightarrow> 60)\<rparr>),
             trace := trace ?st @
               [Dispatch
                  (Built (Resp_cached (ex_resp_init (ex_response 67 None ma []) 69)
                     [65, 225, 255, 104, 105])) 10 ex_client]\<rparr>) 0" for ma
    using valid_response_revalidates_cache_entry
      [OF enabled resp valid cep(1) nonval, where ce = "ex_entry 500" and ma1 = ma] found
    by (simp add: key ex_env_def ex_entry_def ex_response_def ex_busy_slot_def ex_memo_def)
  have b: "trace (forward_resp_handler ex_env ?gone ?memo (ex_response 67 None (Some 120) [])) =
      trace ?gone"
    using valid_response_revalidates_cache_entry
      [OF enabled resp valid cep(2) nonval, where ma1 = "Some 120"] gone
    by (simp add: free_facts)
  have t: "trace ?st = []" "trace ?gone = []"
    by (simp_all add: ex_state_def)
  from found show ?thesis
    by (simp add: a b t free_facts key)
qed

lemma revalidate_no_process:
  "filter is_cache_process (trace (revalidate E cep pdu s)) = filter is_cache_process (trace s)"
  by (simp add: revalidate_def Let_def dispatch_def split: option.splits)

lemma cache_ingest_process:
  "filter is_cache_process (trace (cache_ingest E memo cep pdu s)) =
     filter is_cache_process (trace s) @
       [Cache_process (cache_key cep)
          (unat (if send_limit memo = GCOAP_SEND_LIMIT_NON then hdr_buf_code memo
                 else pdu_buf_code memo))
          pdu (length (payload pdu) + payload_pos pdu)]"
  by (simp add: cache_ingest_def Let_def)

text \<open>
  C9, as the code has it. The response handler passes the response to
  \<open>nanocoap_cache_process\<close> exactly when the outcome is a received response, the cache
  module is compiled in, and the response is not 2.03 Valid or the slot is validating; it
  does so once, with the slot's cache key and the code of the memo's request. The only
  received response that is kept from the cache module is a 2.03 Valid on a slot that is
  not validating; a 2.03 Valid relayed for a validating client is passed to it.
\<close>

theorem cache_process_invoked_iff:
  "filter is_cache_process (trace (forward_resp_handler E st memo pdu)) =
     filter is_cache_process (trace st) @
       (if memo_state memo = GCOAP_MEMO_RESP \<and> cache_enabled E \<and>
           (code pdu \<noteq> COAP_CODE_VALID \<or> validating (client_eps st ! memo_context memo))
        then [Cache_process (cache_key (client_eps st ! memo_context memo))
                (unat (if send_limit memo = GCOAP_SEND_LIMIT_NON then hdr_buf_code memo
                       else pdu_buf_code memo))
                pdu (length (payload pdu) + payload_pos pdu)]
        else [])"
  by (simp add: forward_resp_handler_def Let_def free_facts revalidate_no_process
      cache_ingest_process dispatch_facts)

text \<open>
  C9 as written fails: a 2.03 Valid relayed to a validating client is passed to the cache
  module, and so is a 2.05 Content received on a validating slot.
\<close>

theorem valid_for_validating_client_reaches_cache:
  "validating (client_eps (ex_state [ex_busy_slot True [1, 20, 0, 0, 0, 0, 0, 0]] (ex_cache 500)) ! 0) \<and>
   code (ex_response 67 (Some [225]) None []) = COAP_CODE_VALID \<and>
   trace (forward_resp_handler ex_env
            (ex_state [ex_busy_slot True [1, 20, 0, 0, 0, 0, 0, 0]] (ex_cache 500))
            (ex_memo GCOAP_MEMO_RESP 0) (ex_response 67 (Some [225]) None [])) =
     [Dispatch (As_is (ex_response 67 (Some [225]) None [])) 9 ex_client,
      Cache_process [1, 20, 0, 0, 0, 0, 0, 0] 1 (ex_response 67 (Some [225]) None []) 9] \<and>
   code (ex_response 69 (Some [226]) None [104, 105]) \<noteq> COAP_CODE_VALID \<and>
   trace (forward_resp_handler ex_env
            (ex_state [ex_busy_slot True [1, 20, 0, 0, 0, 0, 0, 0]] (ex_cache 500))
            (ex_memo GCOAP_MEMO_RESP 0) (ex_response 69 (Some [226]) None [104, 105])) =
     [Dispatch (As_is (ex_response 69 (Some [226]) None [104, 105])) 11 ex_client,
      Cache_process [1, 20, 0, 0, 0, 0, 0, 0] 1 (ex_response 69 (Some [226]) None [104, 105]) 11]"
proof -
  have slot: "client_eps (ex_state [ex_busy_slot True [1, 20, 0, 0, 0, 0, 0, 0]] (ex_cache 500)) ! 0 =
      ex_busy_slot True [1, 20, 0, 0, 0, 0, 0, 0]"
    by (simp add: ex_state_def)
  have c: "code (ex_response k e m p) = k" "payload (ex_response k e m p) = p"
    "payload_pos (ex_response k e m p) = 9" for k e m p
    by (simp_all add: ex_response_def)
  have tr: "trace (forward_resp_handler ex_env
            (ex_state [ex_busy_slot True [1, 20, 0, 0, 0, 0, 0, 0]] (ex_cache 500))
            (ex_memo GCOAP_MEMO_RESP 0) (ex_response k e m p)) =
     [Dispatch (As_is (ex_response k e m p)) (9 + length p) ex_client,
      Cache_process [1, 20, 0, 0, 0, 0, 0, 0] 1 (ex_response k e m p) (length p + 9)]" for k e m p
    by (simp add: forward_resp_handler_def Let_def free_facts dispatch_facts cache_ingest_def
        ex_memo_def slot c)
      (simp add: ex_busy_slot_def ex_env_def ex_state_def GCOAP_SEND_LIMIT_NON_def)
  show ?thesis
    by (simp add: tr slot c) (simp add: ex_busy_slot_def COAP_CODE_VALID_def)
qed

theorem cache_process_invoked_iff_witness:
  "filter is_cache_process
     (trace (forward_resp_handler ex_env
        (ex_state [ex_busy_slot False [1, 20, 0, 0, 0, 0, 0, 0]] Map.empty)
        (ex_memo GCOAP_MEMO_RESP 0) (ex_response 69 (Some [225]) None [104, 105]))) =
     [Cache_process [1, 20, 0, 0, 0, 0, 0, 0] 1 (ex_response 69 (Some [225]) None [104, 105]) 11] \<and>
   filter is_cache_process
     (trace (forward_resp_handler ex_env
        (ex_state [ex_busy_slot False [1, 20, 0, 0, 0, 0, 0, 0]] (ex_cache 500))
        (ex_memo GCOAP_MEMO_RESP 0) (ex_response 67 None (Some 120) []))) = [] \<and>
   filter is_cache_process
     (trace (forward_resp_handler ex_env
        (ex_state [ex_busy_slot False [1, 20, 0, 0, 0, 0, 0, 0]] Map.empty)
        (ex_memo GCOAP_MEMO_TIMEOUT 0) (ex_response 69 (Some [225]) None [104, 105]))) = []"
proof -
  have slot: "client_eps (ex_state [ex_busy_slot False [1, 20, 0, 0, 0, 0, 0, 0]] c) ! 0 =
      ex_busy_slot False [1, 20, 0, 0, 0, 0, 0, 0]" for c
    by (simp add: ex_state_def)
  have c: "code (ex_response k e m p) = k" "payload (ex_response k e m p) = p"
    "payload_pos (ex_response k e m p) = 9" for k e m p
    by (simp_all add: ex_response_def)
  have t: "trace (ex_state eps ca) = []" for eps ca
    by (simp add: ex_state_def)
  have m: "memo_context (ex_memo ms 0) = 0" "memo_state (ex_memo ms 0) = ms"
    "send_limit (ex_memo ms 0) = 4" "pdu_buf_code (ex_memo ms 0) = 1" for ms
    by (simp_all add: ex_memo_def)
  have s: "validating (ex_busy_slot False k) = False" "cache_key (ex_busy_slot False k) = k" for k
    by (simp_all add: ex_busy_slot_def)
  have e: "cache_enabled ex_env"
    by (simp add: ex_env_def)
  show ?thesis
    using
      cache_process_invoked_iff [of ex_env
        "ex_state [ex_busy_slot False [1, 20, 0, 0, 0, 0, 0, 0]] Map.empty"
        "ex_memo GCOAP_MEMO_RESP 0" "ex_response 69 (Some [225]) None [104, 105]"]
      cache_process_invoked_iff [of ex_env
        "ex_state [ex_busy_slot False [1, 20, 0, 0, 0, 0, 0, 0]] (ex_cache 500)"
        "ex_memo GCOAP_MEMO_RESP 0" "ex_response 67 None (Some 120) []"]
      cache_process_invoked_iff [of ex_env
        "ex_state [ex_busy_slot False [1, 20, 0, 0, 0, 0, 0, 0]] Map.empty"
        "ex_memo GCOAP_MEMO_TIMEOUT 0" "ex_response 69 (Some [225]) None [104, 105]"]
    by (simp add: slot c t m s e COAP_CODE_VALID_def GCOAP_SEND_LIMIT_NON_def)
qed

subsection \<open>Serving a fresh cache entry\<close>

lemma sint_small:
  fixes w :: "32 word"
  assumes "unat w < 2 ^ 31"
  shows "sint w = uint w"
proof -
  have a: "int (unat w) < int (2 ^ 31)"
    using assms by (simp only: of_nat_less_iff)
  have b: "int (unat w) = uint w"
    by (simp only: uint_nat)
  have c: "int (2 ^ 31) = (2 ^ 31 :: int)"
    by simp
  have d: "uint w < 2 ^ 31"
    using a unfolding b c .
  have p: "- (2 ^ 31) \<le> (0::int)"
    by simp
  have e: "- (2 ^ 31) \<le> uint w"
    using p uint_ge_0 [of w] by (rule order_trans)
  have "signed_take_bit 31 (uint w) = uint w"
    using e d by (rule signed_take_bit_int_eq_self)
  then show ?thesis
    by (simp add: sint_uint)
qed

lemma uint_pos:
  fixes w :: "32 word"
  shows "0 < w \<Longrightarrow> 0 < uint w"
  by (simp only: word_less_def uint_0_eq)

lemma cache_build_response_positive:
  assumes hdr: "\<forall>c. 0 < total_hdr_len (gcoap_resp_init E pdu c)"
    and cached: "total_hdr_len (response_pkt ce) \<le> response_len ce"
    and bound: "\<forall>c. unat (total_hdr_len (gcoap_resp_init E pdu c)) + unat (response_len ce) < 2 ^ 31"
  shows "0 < fst (cache_build_response E ce pdu)"
proof -
  have small: "unat (total_hdr_len (gcoap_resp_init E pdu c)) < 2 ^ 31" for c
    using bound [rule_format, of c] by linarith
  have valid: "0 < sint (total_hdr_len (gcoap_resp_init E pdu c))" for c
    using uint_pos [OF hdr [rule_format, of c]] by (simp only: sint_small [OF small])
  have tail: "unat (response_len ce - total_hdr_len (response_pkt ce)) \<le> unat (response_len ce)"
    unfolding unat_sub [OF cached] by (rule diff_le_self)
  have sum: "unat (total_hdr_len (gcoap_resp_init E pdu c) +
               (response_len ce - total_hdr_len (response_pkt ce))) =
             unat (total_hdr_len (gcoap_resp_init E pdu c)) +
               unat (response_len ce - total_hdr_len (response_pkt ce))" for c
  proof -
    have "unat (total_hdr_len (gcoap_resp_init E pdu c)) +
          unat (response_len ce - total_hdr_len (response_pkt ce)) < 2 ^ 31"
      using bound [rule_format, of c] tail by linarith
    also have "(2::nat) ^ 31 < 2 ^ LENGTH(32)"
      by simp
    finally show ?thesis
      by (rule unat_add_lem [THEN iffD1])
  qed
  have spliced: "0 < sint (total_hdr_len (gcoap_resp_init E pdu c) +
                        (response_len ce - total_hdr_len (response_pkt ce)))" for c
  proof -
    let ?w = "total_hdr_len (gcoap_resp_init E pdu c) +
               (response_len ce - total_hdr_len (response_pkt ce))"
    have lt: "unat ?w < 2 ^ 31"
      using bound [rule_format, of c] tail unfolding sum by linarith
    have "0 < unat (total_hdr_len (gcoap_resp_init E pdu c))"
      using hdr [rule_format, of c] by (simp only: word_less_nat_alt unat_0)
    then have "0 < unat ?w"
      unfolding sum by linarith
    then have "0 < ?w"
      by (simp only: word_less_nat_alt unat_0)
    from uint_pos [OF this] show ?thesis
      by (simp only: sint_small [OF lt])
  qed
  show ?thesis
    using valid spliced
    by (simp add: cache_build_response_def Let_def split: option.splits sum.splits)
qed

lemma lookup_hit:
  assumes "cache_tbl st (nanocoap_cache_key_generate E pdu) = Some ce"
    and "request_method ce = coap_get_code pdu" and "ztimer_now E < max_age ce"
  shows "cache_lookup_and_process E st pdu i =
           (fst (cache_build_response E ce pdu), Some (fst (snd (cache_build_response E ce pdu))),
            snd (snd (cache_build_response E ce pdu)), Some ce, st)"
  using assms
  by (simp add: cache_lookup_and_process_def Let_def split: prod.splits)

text \<open>
  What the cache path does for every fresh hit. With the cache module compiled in, a slot
  free, and a lookup that finds an entry whose request method is the inbound code and
  whose \<open>max_age\<close> is greater than the current time (the entry and the header being well
  formed: a header is not empty, the cached header is no longer than the cached response,
  the cached buffer holds the cached response, and the lengths stay below \<open>2^31\<close>): the
  handler returns the positive length computed by \<open>_cache_build_response\<close> with the
  response that function built from the entry in the buffer, the slot claimed for the
  request is zeroed again, and the trace is unchanged, so nothing is sent upstream. When
  the response is the cached one (the cached code followed by the cached options and
  payload), the returned length is the size of that response. When it is the 2.03 Valid
  that echoes the request's ETag, the returned length is the header length alone.
\<close>

lemma fresh_hit_is_served:
  assumes enabled: "cache_enabled E"
    and alloc: "allocate_client_ep (client_eps st) remote = Some (i, eps)"
    and found: "cache_tbl st (nanocoap_cache_key_generate E pdu) = Some ce"
    and same_method: "request_method ce = coap_get_code pdu"
    and fresh: "ztimer_now E < max_age ce"
    and hdr: "\<forall>c. 0 < total_hdr_len (gcoap_resp_init E pdu c)"
    and cached: "total_hdr_len (response_pkt ce) \<le> response_len ce"
    and held: "unat (response_len ce) \<le> length (response_buf ce)"
    and bound: "\<forall>c. unat (total_hdr_len (gcoap_resp_init E pdu c)) + unat (response_len ce) < 2 ^ 31"
    and built: "cache_build_response E ce pdu = (n, b, pdu')"
    and st': "st' = free_client_ep (st\<lparr>client_eps := eps\<rparr>) i"
  shows "0 < n \<and>
         gcoap_forward_proxy_request_process E st pdu remote = (n, Some b, st') \<and>
         forward_proxy_handler E st pdu remote = (Pdu_len n, Some b, st') \<and>
         ((\<exists>e. b = Resp_valid (gcoap_resp_init E pdu COAP_CODE_VALID) e \<and>
               etag_opt pdu = Inr e \<and> etag_opt (response_pkt ce) = Inr e \<and>
               n = uint (total_hdr_len (gcoap_resp_init E pdu COAP_CODE_VALID))) \<or>
          (b = Resp_cached (gcoap_resp_init E pdu (code (response_pkt ce)))
                (take (unat (response_len ce - total_hdr_len (response_pkt ce)))
                   (drop (unat (total_hdr_len (response_pkt ce))) (response_buf ce))) \<and>
           n = int (built_size b))) \<and>
         trace st' = trace st \<and> cache_tbl st' = cache_tbl st \<and>
         \<not> in_use (client_eps st' ! i) \<and>
         map in_use (client_eps st') = map in_use (client_eps st)"
proof -
  have n: "0 < n"
    using cache_build_response_positive [OF hdr cached bound] built by simp
  have f: "cache_tbl (st\<lparr>client_eps := eps\<rparr>) (nanocoap_cache_key_generate E pdu) = Some ce"
    using found by simp
  have p: "gcoap_forward_proxy_request_process E st pdu remote = (n, Some b, st')"
    using enabled alloc n
    by (simp add: gcoap_forward_proxy_request_process_def lookup_hit [OF f same_method fresh] built st')
  have h: "forward_proxy_handler E st pdu remote = (Pdu_len n, Some b, st')"
    using n by (simp add: forward_proxy_handler_def p ENOMEM_def EINVAL_def EPERM_def)
  let ?h = "total_hdr_len (gcoap_resp_init E pdu (code (response_pkt ce)))"
  let ?o = "response_len ce - total_hdr_len (response_pkt ce)"
  let ?tail = "take (unat ?o) (drop (unat (total_hdr_len (response_pkt ce))) (response_buf ce))"
  have o: "unat ?o = unat (response_len ce) - unat (total_hdr_len (response_pkt ce))"
    by (rule unat_sub [OF cached])
  have tl: "length ?tail = unat ?o"
    using held by (simp add: o)
  have ole: "unat ?o \<le> unat (response_len ce)"
    unfolding o by (rule diff_le_self)
  have lt: "unat ?h + unat ?o < 2 ^ 31"
    using bound [rule_format, of "code (response_pkt ce)"] ole by linarith
  have sum: "unat (?h + ?o) = unat ?h + unat ?o"
  proof -
    note lt
    also have "(2::nat) ^ 31 < 2 ^ LENGTH(32)"
      by simp
    finally show ?thesis
      by (rule unat_add_lem [THEN iffD1])
  qed
  have small: "unat (?h + ?o) < 2 ^ 31"
    unfolding sum by (rule lt)
  have size: "sint (?h + ?o) = int (unat ?h + length ?tail)"
  proof -
    have "sint (?h + ?o) = uint (?h + ?o)"
      by (rule sint_small [OF small])
    also have "\<dots> = int (unat (?h + ?o))"
      by (simp only: uint_nat)
    finally show ?thesis
      by (simp only: sum tl)
  qed
  have vsmall: "unat (total_hdr_len (gcoap_resp_init E pdu COAP_CODE_VALID)) < 2 ^ 31"
    using bound [rule_format, of COAP_CODE_VALID] by linarith
  note vlen = sint_small [OF vsmall]
  have shape: "(\<exists>e. b = Resp_valid (gcoap_resp_init E pdu COAP_CODE_VALID) e \<and>
               etag_opt pdu = Inr e \<and> etag_opt (response_pkt ce) = Inr e \<and>
               n = uint (total_hdr_len (gcoap_resp_init E pdu COAP_CODE_VALID))) \<or>
          (b = Resp_cached (gcoap_resp_init E pdu (code (response_pkt ce))) ?tail \<and>
           n = int (built_size b))"
  proof (cases "\<exists>e. b = Resp_valid (gcoap_resp_init E pdu COAP_CODE_VALID) e")
    case True
    then obtain e where e: "b = Resp_valid (gcoap_resp_init E pdu COAP_CODE_VALID) e"
      by (elim exE)
    from built e have "etag_opt pdu = Inr e \<and> etag_opt (response_pkt ce) = Inr e \<and>
        n = sint (total_hdr_len (gcoap_resp_init E pdu COAP_CODE_VALID))"
      by (auto simp: cache_build_response_def Let_def split: option.splits sum.splits if_splits)
    with e vlen show ?thesis by simp
  next
    case False
    with built have "b = Resp_cached (gcoap_resp_init E pdu (code (response_pkt ce))) ?tail \<and>
        n = sint (?h + ?o)"
      by (auto simp: cache_build_response_def Let_def split: option.splits sum.splits if_splits)
    then have "b = Resp_cached (gcoap_resp_init E pdu (code (response_pkt ce))) ?tail \<and>
        n = int (built_size b)"
      by (simp only: size built_size.simps)
    then show ?thesis by (rule disjI2)
  qed
  have a: "i < length (client_eps st)" "\<not> in_use (client_eps st ! i)"
    "eps = (client_eps st)[i := (client_eps st ! i)\<lparr>in_use := True, validating := False, ep := remote\<rparr>]"
    using allocate_Some [OF alloc] by simp_all
  have flags: "map in_use (client_eps st') = map in_use (client_eps st)"
  proof -
    have "map in_use (client_eps st') = (map in_use (client_eps st))[i := False]"
      by (simp add: st' free_facts a(3) map_update)
    also have "\<dots> = map in_use (client_eps st)"
      using list_update_id [of "map in_use (client_eps st)" i] a(1,2) by simp
    finally show ?thesis .
  qed
  have rel: "\<not> in_use (client_eps st' ! i)"
    unfolding st' using a(1) a(3) by (simp add: free_not_in_use)
  have t: "trace st' = trace st" "cache_tbl st' = cache_tbl st"
    by (simp_all add: st' free_facts)
  from n p h shape t rel flags show ?thesis by simp
qed

lemma ex_hit_facts:
  "cache_enabled ex_env"
  "cache_tbl (ex_state eps (ex_cache 2000))
     (nanocoap_cache_key_generate ex_env (ex_request 1 pre ''coap://[fe80::1%1]/a'' [])) =
     Some (ex_entry 2000)"
  "request_method (ex_entry 2000) = coap_get_code (ex_request 1 pre ''coap://[fe80::1%1]/a'' [])"
  "ztimer_now ex_env < max_age (ex_entry 2000)"
  "\<forall>c. 0 < total_hdr_len (gcoap_resp_init ex_env (ex_request 1 pre ''coap://[fe80::1%1]/a'' []) c)"
  "total_hdr_len (response_pkt (ex_entry 2000)) \<le> response_len (ex_entry 2000)"
  "unat (response_len (ex_entry 2000)) \<le> length (response_buf (ex_entry 2000))"
  "\<forall>c. unat (total_hdr_len (gcoap_resp_init ex_env (ex_request 1 pre ''coap://[fe80::1%1]/a'' []) c)) +
      unat (response_len (ex_entry 2000)) < 2 ^ 31"
proof -
  let ?pdu = "ex_request 1 pre ''coap://[fe80::1%1]/a'' []"
  show "cache_enabled ex_env"
    by (simp add: ex_env_def)
  have key: "nanocoap_cache_key_generate ex_env ?pdu = [1, 20, 0, 0, 0, 0, 0, 0]"
    by (simp add: ex_env_def ex_cache_key_def ex_request_def)
  show "cache_tbl (ex_state eps (ex_cache 2000)) (nanocoap_cache_key_generate ex_env ?pdu) =
      Some (ex_entry 2000)"
    unfolding key by (simp add: ex_state_def ex_cache_def)
  show "request_method (ex_entry 2000) = coap_get_code ?pdu"
    by (simp add: ex_entry_def coap_get_code_def ex_request_def)
  show "ztimer_now ex_env < max_age (ex_entry 2000)"
    by (simp add: ex_env_def ex_entry_def)
  have len: "total_hdr_len (gcoap_resp_init ex_env ?pdu c) = 5" for c
    by (simp add: ex_env_def ex_resp_init_def ex_request_def)
  show "\<forall>c. 0 < total_hdr_len (gcoap_resp_init ex_env ?pdu c)"
    by (simp add: len)
  show "total_hdr_len (response_pkt (ex_entry 2000)) \<le> response_len (ex_entry 2000)"
    by (simp add: ex_entry_def ex_response_def)
  show "unat (response_len (ex_entry 2000)) \<le> length (response_buf (ex_entry 2000))"
    by (simp add: ex_entry_def)
  show "\<forall>c. unat (total_hdr_len (gcoap_resp_init ex_env ?pdu c)) +
      unat (response_len (ex_entry 2000)) < 2 ^ 31"
    by (simp add: len ex_entry_def)
qed

lemma ex_build_cached:
  "cache_build_response ex_env (ex_entry d) (ex_request 1 [] ''coap://[fe80::1%1]/a'' []) =
     (10,
      Resp_cached (ex_resp_init (ex_request 1 [] ''coap://[fe80::1%1]/a'' []) 69)
        [65, 225, 255, 104, 105],
      ex_resp_init (ex_request 1 [] ''coap://[fe80::1%1]/a'' []) 69)"
  by (simp add: cache_build_response_def Let_def ex_request_def ex_entry_def ex_response_def
      ex_env_def ex_resp_init_def COAP_METHOD_GET_def)

text \<open>
  The cached response at work: a GET without ETag on a fresh entry is answered with the
  cached 2.05, and the returned length 10 is the size of that response.
\<close>

lemma cached_response_is_served:
  "forward_proxy_handler ex_env (ex_state [ex_busy_slot False [], ex_free_slot] (ex_cache 2000))
     (ex_request 1 [] ''coap://[fe80::1%1]/a'' []) ex_client =
     (Pdu_len 10,
      Some (Resp_cached (ex_resp_init (ex_request 1 [] ''coap://[fe80::1%1]/a'' []) 69)
              [65, 225, 255, 104, 105]),
      free_client_ep
        ((ex_state [ex_busy_slot False [], ex_free_slot] (ex_cache 2000))
           \<lparr>client_eps := [ex_busy_slot False [],
              ex_free_slot\<lparr>in_use := True, validating := False, ep := ex_client\<rparr>]\<rparr>) 1) \<and>
   built_size (Resp_cached (ex_resp_init (ex_request 1 [] ''coap://[fe80::1%1]/a'' []) 69)
              [65, 225, 255, 104, 105]) = 10"
proof -
  have s: "built_size (Resp_cached (ex_resp_init (ex_request 1 [] ''coap://[fe80::1%1]/a'' []) 69)
              [65, 225, 255, 104, 105]) = 10"
    by (simp add: ex_resp_init_def ex_request_def)
  from fresh_hit_is_served
    [OF ex_hit_facts(1) ex_alloc ex_hit_facts(2-8) ex_build_cached refl] s
  show ?thesis by simp
qed

lemma ex_build_valid:
  "cache_build_response ex_env (ex_entry d)
     (ex_request 1 [Opt COAP_OPT_ETAG [225]] ''coap://[fe80::1%1]/a'' []) =
     (5,
      Resp_valid (ex_resp_init (ex_request 1 [Opt COAP_OPT_ETAG [225]] ''coap://[fe80::1%1]/a'' []) 67)
        [225],
      ex_resp_init (ex_request 1 [Opt COAP_OPT_ETAG [225]] ''coap://[fe80::1%1]/a'' []) 67)"
  by (simp add: cache_build_response_def Let_def ex_request_def ex_entry_def ex_response_def
      ex_env_def ex_resp_init_def COAP_METHOD_GET_def COAP_CODE_VALID_def)

text \<open>
  C3 at a failing input. A GET for \<open>coap://[fe80::1%1]/a\<close> with the ETag \<open>0xE1\<close> while the
  cache holds a fresh entry for that request with the same ETag: the lookup is a fresh
  hit, the slot is zeroed again and nothing is sent upstream, and the response built in
  the buffer is the 2.03 Valid with the ETag option, 7 bytes (header and token 5, option
  2). But the length the handler returns is 5, the header length alone: it is not the
  length of the response it built, and the ETag lies beyond it.
\<close>

theorem validated_hit_returns_header_length_only:
  "fresh_hit ex_env (ex_state [ex_busy_slot False [], ex_free_slot] (ex_cache 2000))
     (ex_request 1 [Opt COAP_OPT_ETAG [225]] ''coap://[fe80::1%1]/a'' []) \<and>
   forward_proxy_handler ex_env (ex_state [ex_busy_slot False [], ex_free_slot] (ex_cache 2000))
     (ex_request 1 [Opt COAP_OPT_ETAG [225]] ''coap://[fe80::1%1]/a'' []) ex_client =
     (Pdu_len 5,
      Some (Resp_valid
              (ex_resp_init (ex_request 1 [Opt COAP_OPT_ETAG [225]] ''coap://[fe80::1%1]/a'' []) 67)
              [225]),
      free_client_ep
        ((ex_state [ex_busy_slot False [], ex_free_slot] (ex_cache 2000))
           \<lparr>client_eps := [ex_busy_slot False [],
              ex_free_slot\<lparr>in_use := True, validating := False, ep := ex_client\<rparr>]\<rparr>) 1) \<and>
   built_size (Resp_valid
              (ex_resp_init (ex_request 1 [Opt COAP_OPT_ETAG [225]] ''coap://[fe80::1%1]/a'' []) 67)
              [225]) = 7 \<and>
   trace (free_client_ep
        ((ex_state [ex_busy_slot False [], ex_free_slot] (ex_cache 2000))
           \<lparr>client_eps := [ex_busy_slot False [],
              ex_free_slot\<lparr>in_use := True, validating := False, ep := ex_client\<rparr>]\<rparr>) 1) = []"
proof -
  let ?st = "ex_state [ex_busy_slot False [], ex_free_slot] (ex_cache 2000)"
  let ?pdu = "ex_request 1 [Opt COAP_OPT_ETAG [225]] ''coap://[fe80::1%1]/a'' []"
  have hit: "fresh_hit ex_env ?st ?pdu"
    using ex_hit_facts(2) [of "[ex_busy_slot False [], ex_free_slot]" "[Opt COAP_OPT_ETAG [225]]"]
      ex_hit_facts(3) [of "[Opt COAP_OPT_ETAG [225]]"] ex_hit_facts(4)
    by (simp add: fresh_hit_def)
  have s: "built_size (Resp_valid (ex_resp_init ?pdu 67) [225]) = 7"
    by (simp add: ex_resp_init_def ex_request_def etag_option_size_def)
  have t: "trace ?st = []"
    by (simp add: ex_state_def)
  from fresh_hit_is_served
    [OF ex_hit_facts(1) ex_alloc ex_hit_facts(2-8) ex_build_valid refl] hit s t
  show ?thesis by simp
qed

subsection \<open>The option rewriter\<close>

lemma add_opaque_shape:
  "snd (coap_opt_add_opaque E pkt n v) = pkt \<or> snd (coap_opt_add_opaque E pkt n v) = pkt @ [(n, v)]"
  by (simp add: coap_opt_add_opaque_def)

lemma add_segments_shape:
  "add_segments E pkt n ss = Some pkt' \<Longrightarrow>
   \<exists>new. pkt' = pkt @ new \<and> list_all (\<lambda>opt. fst opt = n) new"
proof (induction ss arbitrary: pkt)
  case Nil
  then show ?case by simp
next
  case (Cons s ss)
  show ?case
  proof (cases "opt_fits E pkt (n, s)")
    case True
    then have "add_segments E pkt n (s # ss) = add_segments E (pkt @ [(n, s)]) n ss"
      by (simp add: coap_opt_add_opaque_def)
    with Cons.prems have rest: "add_segments E (pkt @ [(n, s)]) n ss = Some pkt'"
      by simp
    from Cons.IH [OF rest] obtain new where
      new: "pkt' = (pkt @ [(n, s)]) @ new" "list_all (\<lambda>opt. fst opt = n) new"
      by blast
    have "pkt' = pkt @ ((n, s) # new) \<and> list_all (\<lambda>opt. fst opt = n) ((n, s) # new)"
      using new by simp
    then show ?thesis by (rule exI)
  next
    case False
    then have "add_segments E pkt n (s # ss) = None"
      by (simp add: coap_opt_add_opaque_def)
    with Cons.prems show ?thesis by simp
  qed
qed

lemma add_chars_shape:
  assumes "coap_opt_add_chars E pkt n chars sep = Some pkt'"
  shows "\<exists>new. pkt' = pkt @ new \<and> list_all (\<lambda>opt. fst opt = n) new"
proof (cases "chars = []")
  case True
  with assms have "pkt' = pkt @ [] \<and> list_all (\<lambda>opt. fst opt = n) []"
    by (simp add: coap_opt_add_chars_def)
  then show ?thesis by (rule exI)
next
  case False
  with assms have "add_segments E pkt n (opt_segments E sep chars) = Some pkt'"
    by (simp add: coap_opt_add_chars_def)
  then show ?thesis
    by (rule add_segments_shape)
qed

lemma add_uri_path_shape:
  assumes "gcoap_forward_proxy_add_uri_path E pkt urip = Some pkt'"
  shows "\<exists>p q. pkt' = pkt @ p @ q \<and> list_all (\<lambda>opt. fst opt = COAP_OPT_URI_PATH) p \<and>
           list_all (\<lambda>opt. fst opt = COAP_OPT_URI_QUERY) q \<and> (query urip = None \<longrightarrow> q = [])"
proof -
  from assms obtain pkt1 where
    one: "coap_opt_add_chars E pkt COAP_OPT_URI_PATH (path urip) CHR ''/'' = Some pkt1"
    by (cases "coap_opt_add_chars E pkt COAP_OPT_URI_PATH (path urip) CHR ''/''")
      (simp_all add: gcoap_forward_proxy_add_uri_path_def)
  from add_chars_shape [OF one] obtain p where
    p: "pkt1 = pkt @ p" "list_all (\<lambda>opt. fst opt = COAP_OPT_URI_PATH) p"
    by (elim exE conjE)
  show ?thesis
  proof (cases "query urip")
    case None
    with assms one have "pkt' = pkt1"
      by (simp add: gcoap_forward_proxy_add_uri_path_def)
    with p None have "pkt' = pkt @ p @ [] \<and> list_all (\<lambda>opt. fst opt = COAP_OPT_URI_PATH) p \<and>
        list_all (\<lambda>opt. fst opt = COAP_OPT_URI_QUERY) [] \<and> (query urip = None \<longrightarrow> [] = [])"
      by simp
    then show ?thesis by (intro exI)
  next
    case (Some qs)
    with assms one have two: "coap_opt_add_chars E pkt1 COAP_OPT_URI_QUERY qs CHR ''&'' = Some pkt'"
      by (simp add: gcoap_forward_proxy_add_uri_path_def)
    from add_chars_shape [OF two] obtain q where
      q: "pkt' = pkt1 @ q" "list_all (\<lambda>opt. fst opt = COAP_OPT_URI_QUERY) q"
      by (elim exE conjE)
    with p Some have "pkt' = pkt @ p @ q \<and> list_all (\<lambda>opt. fst opt = COAP_OPT_URI_PATH) p \<and>
        list_all (\<lambda>opt. fst opt = COAP_OPT_URI_QUERY) q \<and> (query urip = None \<longrightarrow> q = [])"
      by simp
    then show ?thesis by (intro exI)
  qed
qed

lemma opt_nums_distinct:
  "COAP_OPT_ETAG \<noteq> COAP_OPT_PROXY_URI" "COAP_OPT_URI_PATH \<noteq> COAP_OPT_PROXY_URI"
  "COAP_OPT_URI_QUERY \<noteq> COAP_OPT_PROXY_URI" "COAP_OPT_URI_PATH \<noteq> COAP_OPT_ETAG"
  "COAP_OPT_URI_QUERY \<noteq> COAP_OPT_ETAG"
  by (simp_all add: COAP_OPT_ETAG_def COAP_OPT_URI_PATH_def COAP_OPT_URI_QUERY_def
      COAP_OPT_PROXY_URI_def)

lemma filter_none:
  "list_all (\<lambda>opt. fst opt = m) xs \<Longrightarrow> m \<noteq> k \<Longrightarrow> filter (\<lambda>opt. fst opt = k) xs = []"
  by (induction xs) auto

lemma all_other:
  "list_all (\<lambda>opt. fst opt = m) xs \<Longrightarrow> m \<noteq> k \<Longrightarrow> list_all (\<lambda>opt. fst opt \<noteq> k) xs"
  by (induction xs) auto

lemma rw_inv_append_other:
  assumes "rw_inv E ce s" and "list_all (\<lambda>opt. fst opt \<noteq> COAP_OPT_PROXY_URI) new"
    and "filter (\<lambda>opt. fst opt = COAP_OPT_ETAG) new = []"
    and "etag_added s' = etag_added s" and "out s' = out s @ new"
  shows "rw_inv E ce s'"
  using assms by (simp add: rw_inv_def)

lemma rw_inv_add_opaque:
  assumes "rw_inv E ce s" and "n \<noteq> COAP_OPT_PROXY_URI" and "n \<noteq> COAP_OPT_ETAG"
  shows "rw_inv E ce (s\<lparr>out := snd (coap_opt_add_opaque E (out s) n v)\<rparr>)"
proof (cases "opt_fits E (out s) (n, v)")
  case True
  then have "out (s\<lparr>out := snd (coap_opt_add_opaque E (out s) n v)\<rparr>) = out s @ [(n, v)]"
    by (simp add: coap_opt_add_opaque_def)
  with assms show ?thesis
    by (intro rw_inv_append_other [OF assms(1), of "[(n, v)]"]) simp_all
next
  case False
  then have "s\<lparr>out := snd (coap_opt_add_opaque E (out s) n v)\<rparr> = s"
    by (simp add: coap_opt_add_opaque_def)
  with assms(1) show ?thesis by simp
qed

lemma rw_inv_add_cache_etag:
  assumes "rw_inv E ce s"
  shows "rw_inv E ce (add_cache_etag E ce n s)"
proof -
  have none: "filter (\<lambda>opt. fst opt = COAP_OPT_ETAG) (out s) = []" if "\<not> etag_added s"
    using assms that by (simp add: rw_inv_def)
  have latch: "rw_inv E ce (s\<lparr>etag_added := True\<rparr>)"
    using assms by (simp add: rw_inv_def split: if_splits)
  have added: "rw_inv E ce
      (s\<lparr>out := snd (coap_opt_add_opaque E (out s) COAP_OPT_ETAG etag), etag_added := True\<rparr>)"
    if na: "\<not> etag_added s" and en: "cache_enabled E" and c: "ce = Some c"
      and e: "etag_opt (response_pkt c) = Inr etag" for c etag
  proof (cases "opt_fits E (out s) (COAP_OPT_ETAG, etag)")
    case True
    then have o: "snd (coap_opt_add_opaque E (out s) COAP_OPT_ETAG etag) =
        out s @ [(COAP_OPT_ETAG, etag)]"
      by (simp add: coap_opt_add_opaque_def)
    have "list_all (\<lambda>opt. fst opt \<noteq> COAP_OPT_PROXY_URI) (out s)"
      using assms by (simp add: rw_inv_def)
    then show ?thesis
      using none [OF na] en c e opt_nums_distinct
      by (simp add: rw_inv_def o)
  next
    case False
    then have "snd (coap_opt_add_opaque E (out s) COAP_OPT_ETAG etag) = out s"
      by (simp add: coap_opt_add_opaque_def)
    with latch show ?thesis by simp
  qed
  show ?thesis
  proof (cases "\<not> etag_added s \<and> COAP_OPT_ETAG \<le> n")
    case False
    then have "add_cache_etag E ce n s = s"
      unfolding add_cache_etag_def by (rule if_not_P)
    with assms show ?thesis by simp
  next
    case cond: True
    then have na: "\<not> etag_added s"
      by simp
    have unf: "add_cache_etag E ce n s =
        (case ce of
           Some c \<Rightarrow>
             (if cache_enabled E then
                (case etag_opt (response_pkt c) of
                   Inr etag \<Rightarrow>
                     (if 0 < length etag
                      then s\<lparr>out := snd (coap_opt_add_opaque E (out s) COAP_OPT_ETAG etag),
                             etag_added := True\<rparr>
                      else s\<lparr>etag_added := True\<rparr>)
                 | Inl _ \<Rightarrow> s\<lparr>etag_added := True\<rparr>)
              else s)
         | None \<Rightarrow> s)"
      unfolding add_cache_etag_def using cond by (rule if_P)
    show ?thesis
    proof (cases ce)
      case None
      with assms show ?thesis unfolding unf by simp
    next
      case (Some c)
      show ?thesis
      proof (cases "cache_enabled E")
        case False
        with Some assms show ?thesis unfolding unf by simp
      next
        case en: True
        show ?thesis
        proof (cases "etag_opt (response_pkt c)")
          case (Inl err)
          with en Some latch show ?thesis unfolding unf by simp
        next
          case (Inr etag)
          show ?thesis
          proof (cases "0 < length etag")
            case True
            with Inr en Some added [OF na en Some Inr] show ?thesis
              unfolding unf by simp
          next
            case False
            with Inr en Some latch show ?thesis unfolding unf by simp
          qed
        qed
      qed
    qed
  qed
qed

lemma add_cache_etag_flags:
  "cep_validating (add_cache_etag E ce n s) = cep_validating s"
  "uri_path_added (add_cache_etag E ce n s) = uri_path_added s"
  by (simp_all add: add_cache_etag_def split: option.splits sum.splits)

lemma rw_inv_step:
  assumes inv: "rw_inv E ce s" and step: "copy_step E urip ce r s = res"
  shows "case res of
           Inl s' \<Rightarrow> rw_inv E ce s' \<and> cep_validating s' = cep_validating s
         | Inr s' \<Rightarrow> rw_inv E ce s' \<and>
             cep_validating s' = (cep_validating s \<or> (\<exists>v. r = Opt COAP_OPT_ETAG v))"
proof (cases r)
  case Opt_err
  with inv step show ?thesis by (auto simp: copy_step_def)
next
  case (Opt n v)
  let ?s1 = "add_cache_etag E ce n s"
  have i1: "rw_inv E ce ?s1"
    by (rule rw_inv_add_cache_etag [OF inv])
  show ?thesis
  proof (cases "n = COAP_OPT_ETAG")
    case True
    have "rw_inv E ce (?s1\<lparr>cep_validating := True\<rparr>)"
      using i1 by (simp add: rw_inv_def)
    with True Opt step show ?thesis
      by (auto simp: copy_step_def Let_def)
  next
    case notag: False
    show ?thesis
    proof (cases "\<not> uri_path_added ?s1 \<and> COAP_OPT_URI_PATH < n")
      case inject: True
      show ?thesis
      proof (cases "gcoap_forward_proxy_add_uri_path E (out ?s1) urip")
        case None
        with inject notag Opt step have "res = Inl ?s1"
          by (auto simp: copy_step_def Let_def)
        with i1 show ?thesis by (simp add: add_cache_etag_flags)
      next
        case (Some p)
        let ?s2 = "?s1\<lparr>out := p, uri_path_added := True\<rparr>"
        from add_uri_path_shape [OF Some] obtain a b where
          ab: "p = out ?s1 @ a @ b" "list_all (\<lambda>opt. fst opt = COAP_OPT_URI_PATH) a"
            "list_all (\<lambda>opt. fst opt = COAP_OPT_URI_QUERY) b"
          by (elim exE conjE)
        have "list_all (\<lambda>opt. fst opt \<noteq> COAP_OPT_PROXY_URI) (a @ b)"
          using all_other [OF ab(2) opt_nums_distinct(2)] all_other [OF ab(3) opt_nums_distinct(3)]
          by simp
        moreover have "filter (\<lambda>opt. fst opt = COAP_OPT_ETAG) (a @ b) = []"
          using filter_none [OF ab(2) opt_nums_distinct(4)] filter_none [OF ab(3) opt_nums_distinct(5)]
          by simp
        ultimately have i2: "rw_inv E ce ?s2"
          using rw_inv_append_other [OF i1, of "a @ b" ?s2] ab(1) by simp
        show ?thesis
        proof (cases "n = COAP_OPT_PROXY_URI")
          case True
          with Some inject notag Opt step have "res = Inr ?s2"
            by (auto simp: copy_step_def Let_def)
          with i2 notag Opt show ?thesis by (simp add: add_cache_etag_flags)
        next
          case False
          with Some inject notag Opt step
          have "res = Inr (?s2\<lparr>out := snd (coap_opt_add_opaque E (out ?s2) n v)\<rparr>)"
            by (auto simp: copy_step_def Let_def)
          with rw_inv_add_opaque [OF i2 False notag, of v] notag Opt show ?thesis
            by (simp add: add_cache_etag_flags)
        qed
      qed
    next
      case keep: False
      show ?thesis
      proof (cases "n = COAP_OPT_PROXY_URI")
        case True
        with keep notag Opt step have "res = Inr ?s1"
          by (auto simp: copy_step_def Let_def)
        with i1 notag Opt show ?thesis by (simp add: add_cache_etag_flags)
      next
        case False
        with keep notag Opt step
        have "res = Inr (?s1\<lparr>out := snd (coap_opt_add_opaque E (out ?s1) n v)\<rparr>)"
          by (auto simp: copy_step_def Let_def)
        with rw_inv_add_opaque [OF i1 False notag, of v] notag Opt show ?thesis
          by (simp add: add_cache_etag_flags)
      qed
    qed
  qed
qed

lemma rw_inv_loop:
  assumes "rw_inv E ce s" and "copy_loop E urip ce rs s = res"
  shows "case res of
           Inl s' \<Rightarrow> rw_inv E ce s' \<and> (cep_validating s \<longrightarrow> cep_validating s') \<and>
             (cep_validating s' \<longrightarrow> cep_validating s \<or> (\<exists>v. Opt COAP_OPT_ETAG v \<in> set rs))
         | Inr s' \<Rightarrow> rw_inv E ce s' \<and>
             cep_validating s' = (cep_validating s \<or> (\<exists>v. Opt COAP_OPT_ETAG v \<in> set rs))"
  using assms
proof (induction rs arbitrary: s)
  case Nil
  then show ?case by auto
next
  case (Cons r rs)
  show ?case
  proof (cases "copy_step E urip ce r s")
    case (Inl s1)
    with Cons.prems(2) have "res = Inl s1" by simp
    with rw_inv_step [OF Cons.prems(1) Inl] show ?thesis by simp
  next
    case (Inr s1)
    with Cons.prems(2) have loop: "copy_loop E urip ce rs s1 = res" by simp
    from rw_inv_step [OF Cons.prems(1) Inr]
    have i1: "rw_inv E ce s1"
      and v1: "cep_validating s1 = (cep_validating s \<or> (\<exists>v. r = Opt COAP_OPT_ETAG v))"
      by simp_all
    from Cons.IH [OF i1 loop] v1 show ?thesis
      by (cases res) auto
  qed
qed

text \<open>
  C5. Whatever the inbound options are, the options the rewriter has written contain no
  Proxy-Uri and at most one ETag, and an ETag among them carries the value of the ETag of
  the cache entry handed to the rewriter (with the cache module compiled in); so without
  a cache entry there is none, even if the client sent one. The client's ETag options
  are never copied; they set the slot's \<open>validating\<close> flag: the flag is never reset, it is
  set only by an inbound ETag, and when the rewriter does not end with \<open>-EINVAL\<close> the flag
  is true afterwards exactly when it was true before or the request has an ETag option.
\<close>

theorem rewriter_drops_proxy_uri_and_client_etag:
  assumes "gcoap_forward_proxy_copy_options E client_pkt v urip ce = (len, opts, pl, v')"
  shows "COAP_OPT_PROXY_URI \<notin> fst ` set opts \<and>
         length (filter (\<lambda>opt. fst opt = COAP_OPT_ETAG) opts) \<le> 1 \<and>
         (\<forall>opt\<in>set opts. fst opt = COAP_OPT_ETAG \<longrightarrow>
            cache_enabled E \<and> (\<exists>c. ce = Some c \<and> etag_opt (response_pkt c) = Inr (snd opt))) \<and>
         (v \<longrightarrow> v') \<and>
         (v' \<longrightarrow> v \<or> (\<exists>val. Opt COAP_OPT_ETAG val \<in> set (opt_reads client_pkt))) \<and>
         (len \<noteq> - EINVAL \<longrightarrow>
            v' = (v \<or> (\<exists>val. Opt COAP_OPT_ETAG val \<in> set (opt_reads client_pkt))))"
proof -
  let ?s0 = "\<lparr>out = [], cep_validating = v, uri_path_added = False, etag_added = False\<rparr>"
  have i0: "rw_inv E ce ?s0"
    by (simp add: rw_inv_def)
  have inv_facts: "COAP_OPT_PROXY_URI \<notin> fst ` set (out s) \<and>
      length (filter (\<lambda>opt. fst opt = COAP_OPT_ETAG) (out s)) \<le> 1 \<and>
      (\<forall>opt\<in>set (out s). fst opt = COAP_OPT_ETAG \<longrightarrow>
         cache_enabled E \<and> (\<exists>c. ce = Some c \<and> etag_opt (response_pkt c) = Inr (snd opt)))"
    if inv: "rw_inv E ce s" for s
  proof -
    have a: "COAP_OPT_PROXY_URI \<notin> fst ` set (out s)"
      using inv by (auto simp: rw_inv_def list_all_iff)
    have b: "length (filter (\<lambda>opt. fst opt = COAP_OPT_ETAG) (out s)) \<le> 1"
      using inv by (simp add: rw_inv_def split: if_splits)
    have c: "cache_enabled E \<and> (\<exists>c. ce = Some c \<and> etag_opt (response_pkt c) = Inr (snd opt))"
      if "opt \<in> set (out s)" and "fst opt = COAP_OPT_ETAG" for opt
    proof -
      from that have "opt \<in> set (filter (\<lambda>opt. fst opt = COAP_OPT_ETAG) (out s))"
        by simp
      with inv have "cache_enabled E \<and>
          (case ce of Some c \<Rightarrow> etag_opt (response_pkt c) = Inr (snd opt) | None \<Rightarrow> False)"
        unfolding rw_inv_def list_all_iff by blast
      then show ?thesis
        by (cases ce) simp_all
    qed
    from a b c show ?thesis by blast
  qed
  show ?thesis
  proof (cases "copy_loop E urip ce (opt_reads client_pkt) ?s0")
    case (Inl s)
    with assms have r: "opts = out s" "v' = cep_validating s"
      by (simp_all add: gcoap_forward_proxy_copy_options_def)
    from assms Inl have l: "len = - EINVAL"
      by (simp add: gcoap_forward_proxy_copy_options_def)
    from rw_inv_loop [OF i0 Inl] have
      "rw_inv E ce s" and "v \<longrightarrow> cep_validating s"
      and "cep_validating s \<longrightarrow> v \<or> (\<exists>val. Opt COAP_OPT_ETAG val \<in> set (opt_reads client_pkt))"
      by simp_all
    with inv_facts [of s] r l show ?thesis by simp
  next
    case (Inr s)
    with assms have r: "opts = out s" "v' = cep_validating s"
      by (simp_all add: gcoap_forward_proxy_copy_options_def)
    from rw_inv_loop [OF i0 Inr] have
      "rw_inv E ce s"
      and "cep_validating s = (v \<or> (\<exists>val. Opt COAP_OPT_ETAG val \<in> set (opt_reads client_pkt)))"
      by simp_all
    with inv_facts [of s] r show ?thesis by simp
  qed
qed

lemma ex_copy_revalidate:
  "gcoap_forward_proxy_copy_options ex_env
     (ex_request 1 [Opt COAP_OPT_ETAG [224]] ''coap://[fe80::1%1]/a'' []) False
     (ex_urip ''coap'' None) (Some (ex_entry 500)) =
     (7, [(COAP_OPT_ETAG, [225]), (COAP_OPT_URI_PATH, [97])], [], True)"
  by (simp add: gcoap_forward_proxy_copy_options_def ex_request_def copy_step_def
      add_cache_etag_def gcoap_forward_proxy_add_uri_path_def coap_opt_add_chars_def
      coap_opt_add_opaque_def ex_env_def ex_urip_def ex_segments_def ex_entry_def ex_response_def
      COAP_OPT_ETAG_def COAP_OPT_URI_PATH_def COAP_OPT_PROXY_URI_def COAP_OPT_URI_QUERY_def)

theorem rewriter_drops_proxy_uri_and_client_etag_witness:
  "gcoap_forward_proxy_copy_options ex_env
     (ex_request 1 [Opt COAP_OPT_ETAG [224]] ''coap://[fe80::1%1]/a'' []) False
     (ex_urip ''coap'' None) (Some (ex_entry 500)) =
     (7, [(COAP_OPT_ETAG, [225]), (COAP_OPT_URI_PATH, [97])], [], True) \<and>
   COAP_OPT_PROXY_URI \<notin> fst ` set [(COAP_OPT_ETAG, [225 :: 8 word]), (COAP_OPT_URI_PATH, [97])] \<and>
   length (filter (\<lambda>opt. fst opt = COAP_OPT_ETAG)
             [(COAP_OPT_ETAG, [225 :: 8 word]), (COAP_OPT_URI_PATH, [97])]) \<le> 1 \<and>
   etag_opt (response_pkt (ex_entry 500)) = Inr [225] \<and>
   Opt COAP_OPT_ETAG [224] \<in>
     set (opt_reads (ex_request 1 [Opt COAP_OPT_ETAG [224]] ''coap://[fe80::1%1]/a'' [])) \<and>
   (7 :: int) \<noteq> - EINVAL"
proof -
  have e: "etag_opt (response_pkt (ex_entry 500)) = Inr [225]"
    by (simp add: ex_entry_def ex_response_def)
  have r: "Opt COAP_OPT_ETAG [224] \<in>
     set (opt_reads (ex_request 1 [Opt COAP_OPT_ETAG [224]] ''coap://[fe80::1%1]/a'' []))"
    by (simp add: ex_request_def)
  have l: "(7 :: int) \<noteq> - EINVAL"
    by (simp add: EINVAL_def)
  from rewriter_drops_proxy_uri_and_client_etag [OF ex_copy_revalidate] ex_copy_revalidate e r l
  show ?thesis by simp
qed

subsection \<open>The order of the outbound options\<close>

text \<open>
  C1 at a failing input. A PUT with a Content-Format option (number 12) and the Proxy-Uri
  \<open>coap://[fe80::1%1]/a?b=c\<close>: the inbound option numbers 12, 35 are ascending. On the
  first option above Uri-Path the rewriter writes the Uri-Path and, with it, the Uri-Query
  (number 15), and only then copies the Content-Format option: the outbound option numbers
  are 11, 15, 12, which is not ascending.
\<close>

theorem uri_query_written_before_smaller_option:
  "uri_parser_process ex_env ''coap://[fe80::1%1]/a?b=c'' = (0, ex_urip ''coap'' (Some ''b=c'')) \<and>
   read_nums (opt_reads (ex_request 3 [Opt 12 [50]] ''coap://[fe80::1%1]/a?b=c'' [1, 2])) = [12, 35] \<and>
   sorted (read_nums (opt_reads (ex_request 3 [Opt 12 [50]] ''coap://[fe80::1%1]/a?b=c'' [1, 2]))) \<and>
   gcoap_forward_proxy_copy_options ex_env
     (ex_request 3 [Opt 12 [50]] ''coap://[fe80::1%1]/a?b=c'' [1, 2]) False
     (ex_urip ''coap'' (Some ''b=c'')) None =
     (11, [(11, [97]), (15, [98, 61, 99]), (12, [50])], [1, 2], False) \<and>
   \<not> sorted (map fst (fst (snd (gcoap_forward_proxy_copy_options ex_env
     (ex_request 3 [Opt 12 [50]] ''coap://[fe80::1%1]/a?b=c'' [1, 2]) False
     (ex_urip ''coap'' (Some ''b=c'')) None))))"
proof -
  have p: "uri_parser_process ex_env ''coap://[fe80::1%1]/a?b=c'' =
      (0, ex_urip ''coap'' (Some ''b=c''))"
    by (simp add: ex_env_def ex_uri_parser_process_def)
  have n: "read_nums (opt_reads (ex_request 3 [Opt 12 [50]] ''coap://[fe80::1%1]/a?b=c'' [1, 2])) =
      [12, 35]"
    by (simp add: ex_request_def COAP_OPT_PROXY_URI_def)
  have c: "gcoap_forward_proxy_copy_options ex_env
     (ex_request 3 [Opt 12 [50]] ''coap://[fe80::1%1]/a?b=c'' [1, 2]) False
     (ex_urip ''coap'' (Some ''b=c'')) None =
     (11, [(11, [97]), (15, [98, 61, 99]), (12, [50])], [1, 2], False)"
    by (simp add: gcoap_forward_proxy_copy_options_def ex_request_def copy_step_def
      add_cache_etag_def gcoap_forward_proxy_add_uri_path_def coap_opt_add_chars_def
      coap_opt_add_opaque_def ex_env_def ex_urip_def ex_segments_def
      COAP_OPT_ETAG_def COAP_OPT_URI_PATH_def COAP_OPT_PROXY_URI_def COAP_OPT_URI_QUERY_def)
  show ?thesis
    by (simp add: p n c)
qed

text \<open>
  Where the order does hold. The slip above needs a query in the Proxy-Uri and an inbound
  option numbered 12, 13 or 14. Without one of the two, ascending inbound option numbers
  give ascending outbound option numbers, the injected ETag, Uri-Path and Uri-Query
  included.
\<close>

lemma sorted_snoc_all:
  "sorted (map fst xs) \<Longrightarrow> list_all (\<lambda>opt. fst opt \<le> k) xs \<Longrightarrow>
   list_all (\<lambda>opt. fst opt = k) ys \<Longrightarrow> sorted (map fst (xs @ ys))"
  by (induction xs) (auto simp: list_all_iff sorted_append sorted_iff_nth_mono_less)

lemma all_le_mono:
  "list_all (\<lambda>opt. fst opt \<le> a) xs \<Longrightarrow> a \<le> b \<Longrightarrow> list_all (\<lambda>opt. fst opt \<le> (b::nat)) xs"
  by (induction xs) auto

lemma all_eq_le:
  "list_all (\<lambda>opt. fst opt = k) ys \<Longrightarrow> k \<le> b \<Longrightarrow> list_all (\<lambda>opt. fst opt \<le> (b::nat)) ys"
  by (induction ys) auto

lemma add_cache_etag_shape:
  "(out (add_cache_etag E ce n s) = out s \<or>
    (\<exists>e. out (add_cache_etag E ce n s) = out s @ [(COAP_OPT_ETAG, e)] \<and>
         \<not> etag_added s \<and> cache_enabled E \<and> ce \<noteq> None \<and> COAP_OPT_ETAG \<le> n)) \<and>
   (etag_added s \<longrightarrow> etag_added (add_cache_etag E ce n s)) \<and>
   (COAP_OPT_ETAG \<le> n \<and> cache_enabled E \<and> ce \<noteq> None \<longrightarrow> etag_added (add_cache_etag E ce n s))"
  by (simp add: add_cache_etag_def coap_opt_add_opaque_def split: option.splits sum.splits)

lemma ord_after_etag:
  assumes inv: "ord_inv E ce b s" and le: "b \<le> n"
  shows "sorted (map fst (out (add_cache_etag E ce n s))) \<and>
         list_all (\<lambda>opt. fst opt \<le> n) (out (add_cache_etag E ce n s)) \<and>
         (uri_path_added s \<or> list_all (\<lambda>opt. fst opt \<le> COAP_OPT_URI_PATH)
                                (out (add_cache_etag E ce n s)))"
proof -
  from inv have so: "sorted (map fst (out s))" and al: "list_all (\<lambda>opt. fst opt \<le> b) (out s)"
    and k1: "etag_added s \<or> \<not> cache_enabled E \<or> ce = None \<or> b < COAP_OPT_ETAG"
    and k2: "uri_path_added s \<or> b \<le> COAP_OPT_URI_PATH"
    by (simp_all add: ord_inv_def)
  from add_cache_etag_shape [of E ce n s]
  consider (same) "out (add_cache_etag E ce n s) = out s"
    | (etag) e where "out (add_cache_etag E ce n s) = out s @ [(COAP_OPT_ETAG, e)]"
        "\<not> etag_added s" "cache_enabled E" "ce \<noteq> None" "COAP_OPT_ETAG \<le> n"
    by blast
  then show ?thesis
  proof cases
    case same
    have "uri_path_added s \<or> list_all (\<lambda>opt. fst opt \<le> COAP_OPT_URI_PATH) (out s)"
      using k2 all_le_mono [OF al, of COAP_OPT_URI_PATH] by blast
    with same so all_le_mono [OF al le] show ?thesis by simp
  next
    case etag
    with k1 have b4: "b < COAP_OPT_ETAG" by simp
    have a4: "list_all (\<lambda>opt. fst opt \<le> COAP_OPT_ETAG) (out s)"
      using all_le_mono [OF al, of COAP_OPT_ETAG] b4 by simp
    have s4: "sorted (map fst (out s @ [(COAP_OPT_ETAG, e)]))"
      by (rule sorted_snoc_all [OF so a4]) simp
    have n4: "list_all (\<lambda>opt. fst opt \<le> n) (out s @ [(COAP_OPT_ETAG, e)])"
      using all_le_mono [OF a4 etag(5)] etag(5) by simp
    have p4: "list_all (\<lambda>opt. fst opt \<le> COAP_OPT_URI_PATH) (out s @ [(COAP_OPT_ETAG, e)])"
      using all_le_mono [OF a4, of COAP_OPT_URI_PATH]
      by (simp add: COAP_OPT_ETAG_def COAP_OPT_URI_PATH_def)
    from etag(1) s4 n4 p4 show ?thesis by simp
  qed
qed

lemma ord_add_opaque:
  assumes "sorted (map fst xs)" and "list_all (\<lambda>opt. fst opt \<le> n) xs"
  shows "sorted (map fst (snd (coap_opt_add_opaque E xs n v))) \<and>
         list_all (\<lambda>opt. fst opt \<le> n) (snd (coap_opt_add_opaque E xs n v))"
proof (cases "opt_fits E xs (n, v)")
  case True
  then have o: "snd (coap_opt_add_opaque E xs n v) = xs @ [(n, v)]"
    by (simp add: coap_opt_add_opaque_def)
  have "sorted (map fst (xs @ [(n, v)]))"
    by (rule sorted_snoc_all [OF assms]) simp
  with assms(2) show ?thesis by (simp add: o)
next
  case False
  then have "snd (coap_opt_add_opaque E xs n v) = xs"
    by (simp add: coap_opt_add_opaque_def)
  with assms show ?thesis by simp
qed

lemma ord_step:
  assumes inv: "ord_inv E ce b s" and le: "b \<le> n"
    and gap: "query urip = None \<or> n \<le> COAP_OPT_URI_PATH \<or> COAP_OPT_URI_QUERY \<le> n"
    and step: "copy_step E urip ce (Opt n v) s = res"
  shows "case res of Inl s' \<Rightarrow> sorted (map fst (out s')) | Inr s' \<Rightarrow> ord_inv E ce n s'"
proof -
  let ?s1 = "add_cache_etag E ce n s"
  from ord_after_etag [OF inv le] have so1: "sorted (map fst (out ?s1))"
    and al1: "list_all (\<lambda>opt. fst opt \<le> n) (out ?s1)"
    and p1: "uri_path_added s \<or> list_all (\<lambda>opt. fst opt \<le> COAP_OPT_URI_PATH) (out ?s1)"
    by simp_all
  from inv have k1: "etag_added s \<or> \<not> cache_enabled E \<or> ce = None \<or> b < COAP_OPT_ETAG"
    and k2: "uri_path_added s \<or> b \<le> COAP_OPT_URI_PATH"
    by (simp_all add: ord_inv_def)
  have e1: "etag_added ?s1 \<or> \<not> cache_enabled E \<or> ce = None \<or> n < COAP_OPT_ETAG"
    using add_cache_etag_shape [of E ce n s] by (cases "COAP_OPT_ETAG \<le> n") auto
  have u1: "uri_path_added ?s1 = uri_path_added s"
    by (rule add_cache_etag_flags)
  show ?thesis
  proof (cases "n = COAP_OPT_ETAG")
    case True
    then have "res = Inr (?s1\<lparr>cep_validating := True\<rparr>)"
      using step by (simp add: copy_step_def Let_def)
    moreover have "ord_inv E ce n (?s1\<lparr>cep_validating := True\<rparr>)"
      using so1 al1 e1 k2 u1 True
      by (auto simp: ord_inv_def COAP_OPT_ETAG_def COAP_OPT_URI_PATH_def)
    ultimately show ?thesis by simp
  next
    case notag: False
    show ?thesis
    proof (cases "\<not> uri_path_added ?s1 \<and> COAP_OPT_URI_PATH < n")
      case inject: True
      then have al11: "list_all (\<lambda>opt. fst opt \<le> COAP_OPT_URI_PATH) (out ?s1)"
        using p1 u1 by simp
      show ?thesis
      proof (cases "gcoap_forward_proxy_add_uri_path E (out ?s1) urip")
        case None
        with inject notag step have "res = Inl ?s1"
          by (auto simp: copy_step_def Let_def)
        with so1 show ?thesis by simp
      next
        case (Some p)
        let ?s2 = "?s1\<lparr>out := p, uri_path_added := True\<rparr>"
        from add_uri_path_shape [OF Some] obtain a q where
          ab: "p = out ?s1 @ a @ q" "list_all (\<lambda>opt. fst opt = COAP_OPT_URI_PATH) a"
            "list_all (\<lambda>opt. fst opt = COAP_OPT_URI_QUERY) q" "query urip = None \<longrightarrow> q = []"
          by (elim exE conjE)
        have sa: "sorted (map fst (out ?s1 @ a))"
          by (rule sorted_snoc_all [OF so1 al11 ab(2)])
        have aa: "list_all (\<lambda>opt. fst opt \<le> COAP_OPT_URI_QUERY) (out ?s1 @ a)"
          using all_le_mono [OF al11, of COAP_OPT_URI_QUERY] all_eq_le [OF ab(2), of COAP_OPT_URI_QUERY]
          by (simp add: COAP_OPT_URI_PATH_def COAP_OPT_URI_QUERY_def)
        have sp: "sorted (map fst p)"
          using sorted_snoc_all [OF sa aa ab(3)] ab(1) by simp
        have ap: "list_all (\<lambda>opt. fst opt \<le> n) p"
        proof (cases "q = []")
          case True
          have "COAP_OPT_URI_PATH \<le> n" using inject by simp
          from all_eq_le [OF ab(2) this] al1 True ab(1) show ?thesis by simp
        next
          case False
          with ab(4) gap inject have n15: "COAP_OPT_URI_QUERY \<le> n" by auto
          then have "COAP_OPT_URI_PATH \<le> n"
            by (simp add: COAP_OPT_URI_PATH_def COAP_OPT_URI_QUERY_def)
          from all_eq_le [OF ab(2) this] all_eq_le [OF ab(3) n15] al1 ab(1) show ?thesis by simp
        qed
        show ?thesis
        proof (cases "n = COAP_OPT_PROXY_URI")
          case True
          with Some inject notag step have "res = Inr ?s2"
            by (auto simp: copy_step_def Let_def)
          moreover have "ord_inv E ce n ?s2"
            using sp ap e1 by (simp add: ord_inv_def)
          ultimately show ?thesis by simp
        next
          case False
          with Some inject notag step
          have "res = Inr (?s2\<lparr>out := snd (coap_opt_add_opaque E (out ?s2) n v)\<rparr>)"
            by (auto simp: copy_step_def Let_def)
          moreover have "ord_inv E ce n (?s2\<lparr>out := snd (coap_opt_add_opaque E (out ?s2) n v)\<rparr>)"
            using ord_add_opaque [of p n E v] sp ap e1 by (simp add: ord_inv_def)
          ultimately show ?thesis by simp
        qed
      qed
    next
      case keep: False
      then have k2': "uri_path_added ?s1 \<or> n \<le> COAP_OPT_URI_PATH"
        by auto
      show ?thesis
      proof (cases "n = COAP_OPT_PROXY_URI")
        case True
        with keep notag step have "res = Inr ?s1"
          by (auto simp: copy_step_def Let_def)
        moreover have "ord_inv E ce n ?s1"
          using so1 al1 e1 k2' by (simp add: ord_inv_def)
        ultimately show ?thesis by simp
      next
        case False
        with keep notag step
        have "res = Inr (?s1\<lparr>out := snd (coap_opt_add_opaque E (out ?s1) n v)\<rparr>)"
          by (auto simp: copy_step_def Let_def)
        moreover have "ord_inv E ce n (?s1\<lparr>out := snd (coap_opt_add_opaque E (out ?s1) n v)\<rparr>)"
          using ord_add_opaque [of "out ?s1" n E v] so1 al1 e1 k2' by (simp add: ord_inv_def)
        ultimately show ?thesis by simp
      qed
    qed
  qed
qed

lemma ord_loop:
  assumes "ord_inv E ce b s" and "sorted (b # read_nums rs)"
    and "query urip = None \<or>
         list_all (\<lambda>n. n \<le> COAP_OPT_URI_PATH \<or> COAP_OPT_URI_QUERY \<le> n) (read_nums rs)"
    and "copy_loop E urip ce rs s = res"
  shows "sorted (map fst (out (case res of Inl s' \<Rightarrow> s' | Inr s' \<Rightarrow> s')))"
  using assms
proof (induction rs arbitrary: b s)
  case Nil
  then show ?case by (auto simp: ord_inv_def)
next
  case (Cons r rs)
  show ?case
  proof (cases r)
    case Opt_err
    then have "copy_loop E urip ce (r # rs) s = copy_loop E urip ce rs s"
      by (simp add: copy_step_def)
    with Cons.prems(4) have loop: "copy_loop E urip ce rs s = res"
      by simp
    from Cons.prems(2,3) Opt_err have "sorted (b # read_nums rs)"
      and "query urip = None \<or>
         list_all (\<lambda>n. n \<le> COAP_OPT_URI_PATH \<or> COAP_OPT_URI_QUERY \<le> n) (read_nums rs)"
      by simp_all
    from Cons.IH [OF Cons.prems(1) this loop] show ?thesis .
  next
    case (Opt n v)
    from Cons.prems(2,3) Opt have le: "b \<le> n" and rest: "sorted (n # read_nums rs)"
      and gap: "query urip = None \<or> n \<le> COAP_OPT_URI_PATH \<or> COAP_OPT_URI_QUERY \<le> n"
      and gaps: "query urip = None \<or>
         list_all (\<lambda>n. n \<le> COAP_OPT_URI_PATH \<or> COAP_OPT_URI_QUERY \<le> n) (read_nums rs)"
      by auto
    show ?thesis
    proof (cases "copy_step E urip ce (Opt n v) s")
      case (Inl s1)
      with Cons.prems(4) Opt have "res = Inl s1"
        by simp
      with ord_step [OF Cons.prems(1) le gap Inl] show ?thesis by simp
    next
      case (Inr s1)
      with Cons.prems(4) Opt have loop: "copy_loop E urip ce rs s1 = res"
        by simp
      from ord_step [OF Cons.prems(1) le gap Inr] have "ord_inv E ce n s1"
        by simp
      from Cons.IH [OF this rest gaps loop] show ?thesis .
    qed
  qed
qed

lemma outbound_order_without_the_slip:
  assumes ascending: "sorted (read_nums (opt_reads client_pkt))"
    and gap: "query urip = None \<or>
         list_all (\<lambda>n. n \<le> COAP_OPT_URI_PATH \<or> COAP_OPT_URI_QUERY \<le> n)
           (read_nums (opt_reads client_pkt))"
    and copy: "gcoap_forward_proxy_copy_options E client_pkt v urip ce = (len, opts, pl, v')"
  shows "sorted (map fst opts)"
proof -
  let ?s0 = "\<lparr>out = [], cep_validating = v, uri_path_added = False, etag_added = False\<rparr>"
  have i0: "ord_inv E ce 0 ?s0"
    by (simp add: ord_inv_def COAP_OPT_ETAG_def)
  have s0: "sorted (0 # read_nums (opt_reads client_pkt))"
    using ascending by simp
  have "opts = out (case copy_loop E urip ce (opt_reads client_pkt) ?s0 of
                      Inl s' \<Rightarrow> s' | Inr s' \<Rightarrow> s')"
    using copy by (simp add: gcoap_forward_proxy_copy_options_def split: sum.splits)
  with ord_loop [OF i0 s0 gap refl] show ?thesis by simp
qed

end
